theory Spec2Isabelle
  imports Main "HOL-Library.AList" "HOL-Library.Sublist"
begin

section \<open>Data model of the resource policy auditor\<close>

text \<open>
  Python exceptions that the modelled code can raise. \<open>KeyError\<close>: a subscript on a
  plain dict with a missing key; \<open>AttributeError\<close>: an attribute read on \<open>None\<close>;
  \<open>ValueError\<close>: \<open>ipaddr.IPNetwork\<close> on a string that is no network.
\<close>

datatype error = KeyError | AttributeError | ValueError

text \<open>
  A Python set of account identifiers is kept as the list of its elements, so that
  \<open>for account in s\<close> is a traversal; \<open>s.add(v)\<close> is \<open>List.insert v s\<close>. A plain
  dict is an association list in insertion order, read with \<open>map_of\<close>.
  \<open>OBJECT_STORE\<close> is a \<open>defaultdict(dict)\<close> from table names to tables.
\<close>

type_synonym table = "(string \<times> string list) list"
type_synonym object_store = "(string \<times> table) list"

text \<open>
  \<open>add(to, key, value)\<close>. The key is a string or \<open>None\<close>; \<open>not key\<close> holds for
  \<open>None\<close> and for the empty string.
\<close>

definition add :: "table \<Rightarrow> string option \<Rightarrow> string \<Rightarrow> table" where
  "add to key val =
     (case key of
        None \<Rightarrow> to
      | Some k \<Rightarrow>
          if k = [] then to
          else (case map_of to k of
                  Some s \<Rightarrow> AList.update k (List.insert val s) to
                | None \<Rightarrow> to @ [(k, [val])]))"

text \<open>
  \<open>OBJECT_STORE[name]\<close> on the \<open>defaultdict(dict)\<close>: a missing table name is
  entered with an empty table, which is returned.
\<close>

definition getitem_default :: "object_store \<Rightarrow> string \<Rightarrow> table \<times> object_store" where
  "getitem_default store tname =
     (case map_of store tname of
        Some t \<Rightarrow> (t, store)
      | None \<Rightarrow> ([], store @ [(tname, [])]))"

text \<open>
  \<open>add(cls.OBJECT_STORE[tname], key, value)\<close>: the table is fetched (and created when
  missing) before \<open>add\<close> runs, and \<open>add\<close> changes it in place.
\<close>

definition store_add :: "object_store \<Rightarrow> string \<Rightarrow> string option \<Rightarrow> string \<Rightarrow> object_store" where
  "store_add store tname key val =
     (case getitem_default store tname of
        (t, store') \<Rightarrow> AList.update tname (add t key val) store')"

subsection \<open>The state-and-exception discipline\<close>

text \<open>
  A method that can raise and that changes state returns the pair of its outcome
  (\<open>Inl\<close> the exception, \<open>Inr\<close> the value) and the state it leaves behind: what was
  changed before an exception stays changed. \<open>for_each\<close> is a \<open>for\<close> loop whose body
  can raise; a \<open>continue\<close> is a body that returns \<open>Inr ()\<close> early. \<open>then_do\<close> is
  statement sequencing.
\<close>

fun for_each :: "('a \<Rightarrow> 's \<Rightarrow> (error + unit) \<times> 's) \<Rightarrow> 'a list \<Rightarrow> 's \<Rightarrow> (error + unit) \<times> 's" where
  "for_each body [] s = (Inr (), s)"
| "for_each body (x # xs) s =
     (case body x s of
        (Inl e, s') \<Rightarrow> (Inl e, s')
      | (Inr _, s') \<Rightarrow> for_each body xs s')"

definition then_do :: "(error + unit) \<times> 's \<Rightarrow> ('s \<Rightarrow> (error + unit) \<times> 's) \<Rightarrow> (error + unit) \<times> 's" where
  "then_do r f = (case r of (Inl e, s) \<Rightarrow> (Inl e, s) | (Inr _, s) \<Rightarrow> f s)"

subsection \<open>The resource repository\<close>

text \<open>
  The database rows the builder reads. \<open>Account\<close>: name, identifier (field
  \<open>account_identifier\<close>) and third-party flag. A stored item: its technology name, its name, \<open>item.account.identifier\<close> and
  its latest configuration. Of a configuration the builder reads scalar entries with
  \<open>.get(k)\<close> (a string, or \<open>None\<close> for a null or missing entry) and the list under
  \<open>nat_gateway_addresses\<close>, whose elements are dicts read with a subscript.
\<close>

record Account =
  account_name :: string
  account_identifier :: string
  third_party :: bool

record config =
  scalars :: "(string \<times> string option) list"
  nat_gateway_addresses :: "(string \<times> string option) list list option"

record stored_item =
  technology :: string
  item_name :: "string option"
  owner_identifier :: string
  latest_config :: config

record database =
  items :: "stored_item list"
  accounts :: "Account list"
  network_whitelist :: "string option list"

definition config_get :: "config \<Rightarrow> string \<Rightarrow> string option" where
  "config_get c k = (case map_of (scalars c) k of Some v \<Rightarrow> v | None \<Rightarrow> None)"

definition load_related_items :: "database \<Rightarrow> string \<Rightarrow> stored_item list" where
  "load_related_items db technology_name =
     filter (\<lambda>i. technology i = technology_name) (items db)"

subsection \<open>The Knowledge Base Builder\<close>

definition load_s3_buckets :: "database \<Rightarrow> object_store \<Rightarrow> (error + unit) \<times> object_store" where
  "load_s3_buckets db =
     for_each (\<lambda>item s. (Inr (), store_add s ''s3'' (item_name item) (owner_identifier item)))
       (load_related_items db ''s3'')"

definition load_vpcs :: "database \<Rightarrow> object_store \<Rightarrow> (error + unit) \<times> object_store" where
  "load_vpcs db =
     for_each (\<lambda>item s.
         (Inr (),
          store_add
            (store_add s ''vpc'' (config_get (latest_config item) ''id'') (owner_identifier item))
            ''cidr'' (config_get (latest_config item) ''cidr_block'') (owner_identifier item)))
       (load_related_items db ''vpc'')"

definition load_vpces :: "database \<Rightarrow> object_store \<Rightarrow> (error + unit) \<times> object_store" where
  "load_vpces db =
     for_each (\<lambda>item s.
         (Inr (), store_add s ''vpce'' (config_get (latest_config item) ''id'') (owner_identifier item)))
       (load_related_items db ''endpoint'')"

text \<open>
  In \<open>add(cls.OBJECT_STORE['cidr'], address['public_ip'], ...)\<close> the table is fetched
  first, so a \<open>KeyError\<close> of the subscript leaves the \<open>cidr\<close> table created.
\<close>

definition load_nat_address :: "string \<Rightarrow> (string \<times> string option) list \<Rightarrow> object_store \<Rightarrow> (error + unit) \<times> object_store" where
  "load_nat_address acct address s =
     (case map_of address ''public_ip'' of
        None \<Rightarrow> (Inl KeyError, snd (getitem_default s ''cidr''))
      | Some public_ip \<Rightarrow>
          (let s1 = store_add s ''cidr'' public_ip acct in
           case map_of address ''private_ip'' of
             None \<Rightarrow> (Inl KeyError, snd (getitem_default s1 ''cidr''))
           | Some private_ip \<Rightarrow> (Inr (), store_add s1 ''cidr'' private_ip acct)))"

definition load_natgateways :: "database \<Rightarrow> object_store \<Rightarrow> (error + unit) \<times> object_store" where
  "load_natgateways db =
     for_each (\<lambda>gateway.
         for_each (load_nat_address (owner_identifier gateway))
           (case nat_gateway_addresses (latest_config gateway) of None \<Rightarrow> [] | Some l \<Rightarrow> l))
       (load_related_items db ''natgateway'')"

definition load_network_whitelist :: "database \<Rightarrow> object_store \<Rightarrow> (error + unit) \<times> object_store" where
  "load_network_whitelist db =
     for_each (\<lambda>cidr s. (Inr (), store_add s ''cidr'' cidr ''000000000000''))
       (network_whitelist db)"

definition load_userids :: "database \<Rightarrow> object_store \<Rightarrow> (error + unit) \<times> object_store" where
  "load_userids db s =
     then_do
       (for_each (\<lambda>item s. (Inr (),
            store_add s ''userid'' (config_get (latest_config item) ''UserId'') (owner_identifier item)))
          (load_related_items db ''iamuser'') s)
       (for_each (\<lambda>item s. (Inr (),
            store_add s ''userid'' (config_get (latest_config item) ''RoleId'') (owner_identifier item)))
          (load_related_items db ''iamrole''))"

text \<open>\<open>cls.OBJECT_STORE[tname][key] = set()\<close>.\<close>

definition store_reset :: "object_store \<Rightarrow> string \<Rightarrow> string \<Rightarrow> object_store" where
  "store_reset store tname key =
     (case getitem_default store tname of
        (t, store') \<Rightarrow> AList.update tname (AList.update key [] t) store')"

definition load_accounts :: "database \<Rightarrow> object_store \<Rightarrow> (error + unit) \<times> object_store" where
  "load_accounts db s =
     (let friendly_accounts = filter (\<lambda>a. third_party a = False) (accounts db);
          third_party_accounts = filter (\<lambda>a. third_party a = True) (accounts db)
      in then_do
           (for_each (\<lambda>a s. (Inr (), store_add s ''ACCOUNTS'' (Some ''FRIENDLY'') (account_identifier a)))
              friendly_accounts (store_reset s ''ACCOUNTS'' ''FRIENDLY''))
           (\<lambda>s. for_each (\<lambda>a s. (Inr (), store_add s ''ACCOUNTS'' (Some ''THIRDPARTY'') (account_identifier a)))
              third_party_accounts (store_reset s ''ACCOUNTS'' ''THIRDPARTY'')))"

text \<open>\<open>not self.OBJECT_STORE\<close> holds when the store has no table name at all.\<close>

definition prep_for_audit :: "database \<Rightarrow> object_store \<Rightarrow> (error + unit) \<times> object_store" where
  "prep_for_audit db s =
     (if s = [] then
        then_do (then_do (then_do (then_do (then_do (then_do
          (load_s3_buckets db s)
          (load_userids db))
          (load_accounts db))
          (load_vpcs db))
          (load_vpces db))
          (load_natgateways db))
          (load_network_whitelist db)
      else (Inr (), s))"

subsection \<open>Collaborators: ARN parser, network library, policy parser\<close>

text \<open>
  The fields of a parsed \<open>policyuniverse.arn.ARN\<close> that the auditor reads. A JSON
  value as found in an item's configuration. A \<open>who\<close> is the (category, value) pair
  the policy parser produces; a statement exposes its effect, its actions and
  \<open>whos_allowed()\<close>; a policy exposes \<open>is_internet_accessible()\<close>, its statements
  and \<open>whos_allowed()\<close>.
\<close>

record arn =
  tech :: "string option"
  name :: "string option"
  account_number :: "string option"
  error :: bool
  root :: bool
  service :: bool

datatype json = JNull | JBool bool | JNum int | JStr string | JList "json list"
  | JDict "(string \<times> json) list"

record who =
  category :: string
  who_value :: string

record statement =
  effect :: string
  actions :: "string list"
  statement_whos_allowed :: "who list"

record policy =
  is_internet_accessible :: bool
  statements :: "statement list"
  whos_allowed :: "who list"

text \<open>
  The third-party functions the auditor calls, taken as parameters: the \<open>ARN\<close>
  constructor; \<open>ipaddr.IPNetwork\<close> (\<open>None\<close> where it raises \<open>ValueError\<close>) and the
  test \<open>a in b\<close> on two networks; \<open>dpath.util.values\<close> and the \<open>Policy\<close>
  constructor.
\<close>

record 'n lib =
  ARN :: "string \<Rightarrow> arn"
  IPNetwork :: "string \<Rightarrow> 'n option"
  net_in :: "'n \<Rightarrow> 'n \<Rightarrow> bool"
  dpath_values :: "(string \<times> json) list \<Rightarrow> string \<Rightarrow> json"
  Policy :: "json \<Rightarrow> policy"

subsection \<open>Items, findings and the auditor's state\<close>

text \<open>
  What the Issue Sink holds: a finding with its severity, tag and notes, as handed to
  \<open>add_issue\<close>, or a root-access finding with the ARN and the actions handed to
  \<open>_check_cross_account_root\<close>. The item the finding is recorded against is the one
  under review.
\<close>

datatype issue = Finding int string "string option" | RootFinding arn "string list"

record item =
  account :: string
  config :: "(string \<times> json) list"

record state =
  OBJECT_STORE :: object_store
  audit_issues :: "issue list"

text \<open>
  Modelled from the spec: \<open>Auditor.add_issue\<close> (security_monkey/auditor.py) is not
  among the sources. The Issue Sink's \<open>record(severity, tag, subject, notes)\<close> appends
  the finding; checks only append to the sink.
\<close>

definition add_issue :: "int \<Rightarrow> string \<Rightarrow> string option \<Rightarrow> state \<Rightarrow> state" where
  "add_issue score tag notes st = st\<lparr>audit_issues := audit_issues st @ [Finding score tag notes]\<rparr>"

text \<open>
  Modelled from the spec: \<open>Auditor._check_cross_account_root\<close>
  (security_monkey/auditor.py) is not among the sources. It emits a dedicated root-access
  finding that lists the granted actions: the finding keeps the ARN and the actions of the
  call.
\<close>

definition check_cross_account_root :: "arn \<Rightarrow> string list \<Rightarrow> state \<Rightarrow> state" where
  "check_cross_account_root a acts st = st\<lparr>audit_issues := audit_issues st @ [RootFinding a acts]\<rparr>"

definition on_store :: "(object_store \<Rightarrow> 'r \<times> object_store) \<Rightarrow> state \<Rightarrow> 'r \<times> state" where
  "on_store f st = (case f (OBJECT_STORE st) of (r, s') \<Rightarrow> (r, st\<lparr>OBJECT_STORE := s'\<rparr>))"

subsection \<open>Loading an item's policies\<close>

text \<open>
  \<open>load_policies\<close>: for each policy key, the value \<open>dpath.util.values\<close> finds; of a
  list, every element that is not falsy becomes a policy, and an element that is itself a
  list gives one policy per member.
\<close>

fun falsy :: "json \<Rightarrow> bool" where
  "falsy JNull = True"
| "falsy (JBool b) = (\<not> b)"
| "falsy (JNum n) = (n = 0)"
| "falsy (JStr s) = (s = [])"
| "falsy (JList l) = (l = [])"
| "falsy (JDict d) = (d = [])"

definition policies_at :: "'n lib \<Rightarrow> json \<Rightarrow> policy list" where
  "policies_at L pol =
     (case pol of
        JList ps \<Rightarrow>
          concat (map (\<lambda>p. if falsy p then []
                           else (case p of JList pps \<Rightarrow> map (Policy L) pps | _ \<Rightarrow> [Policy L p])) ps)
      | _ \<Rightarrow> [Policy L pol])"

definition load_policies :: "'n lib \<Rightarrow> string list \<Rightarrow> item \<Rightarrow> policy list" where
  "load_policies L policy_keys it =
     concat (map (\<lambda>key. policies_at L (dpath_values L (config it) key)) policy_keys)"

subsection \<open>The Principal Resolver\<close>

text \<open>
  \<open>x in s\<close> for an account number that may be \<open>None\<close>.
\<close>

definition in_accounts :: "string option \<Rightarrow> string list \<Rightarrow> bool" where
  "in_accounts a s = (case a of None \<Rightarrow> False | Some x \<Rightarrow> x \<in> set s)"

definition inspect_who_account :: "string option \<Rightarrow> Account option \<Rightarrow> object_store \<Rightarrow> (error + string) \<times> object_store" where
  "inspect_who_account acct same s =
     (if acct = Some ''000000000000'' then (Inr ''SAME'', s)
      else (case same of
              None \<Rightarrow> (Inl AttributeError, s)
            | Some home \<Rightarrow>
                if acct = Some (account_identifier home) then (Inr ''SAME'', s)
                else (case getitem_default s ''ACCOUNTS'' of
                        (registry, s1) \<Rightarrow>
                          (case map_of registry ''FRIENDLY'' of
                             None \<Rightarrow> (Inl KeyError, s1)
                           | Some friendly \<Rightarrow>
                               if in_accounts acct friendly then (Inr ''FRIENDLY'', s1)
                               else (case getitem_default s1 ''ACCOUNTS'' of
                                       (registry', s2) \<Rightarrow>
                                         (case map_of registry' ''THIRDPARTY'' of
                                            None \<Rightarrow> (Inl KeyError, s2)
                                          | Some thirdparty \<Rightarrow>
                                              if in_accounts acct thirdparty
                                              then (Inr ''THIRDPARTY'', s2)
                                              else (Inr ''UNKNOWN'', s2)))))))"

text \<open>
  The loop \<open>for account in accounts: values.add(self.inspect_who_account(account, same))\<close>
  of \<open>inspect_who_cidr\<close> and \<open>inspect_who_generic\<close>.
\<close>

fun resolve_accounts :: "string list \<Rightarrow> Account option \<Rightarrow> string set \<Rightarrow> object_store \<Rightarrow> (error + string set) \<times> object_store" where
  "resolve_accounts [] same values s = (Inr values, s)"
| "resolve_accounts (a # rest) same values s =
     (case inspect_who_account (Some a) same s of
        (Inl e, s') \<Rightarrow> (Inl e, s')
      | (Inr t, s') \<Rightarrow> resolve_accounts rest same (insert t values) s')"

text \<open>
  \<open>inspect_who_generic\<close>: the looked-up item may be \<open>None\<close> (the name of an ARN
  that has none), which is in no dict.
\<close>

definition inspect_who_generic :: "string \<Rightarrow> string option \<Rightarrow> Account option \<Rightarrow> object_store \<Rightarrow> (error + string set) \<times> object_store" where
  "inspect_who_generic key it same s =
     (case getitem_default s key of
        (t, s1) \<Rightarrow>
          (case it of
             None \<Rightarrow> (Inr {''UNKNOWN''}, s1)
           | Some i \<Rightarrow>
               if map_of t i \<noteq> None then
                 (case getitem_default s1 key of
                    (t', s2) \<Rightarrow>
                      (case map_of t' i of
                         None \<Rightarrow> (Inl KeyError, s2)
                       | Some accts \<Rightarrow> resolve_accounts accts same {} s2))
               else (Inr {''UNKNOWN''}, s1)))"

definition inspect_who_s3 :: "string option \<Rightarrow> Account option \<Rightarrow> object_store \<Rightarrow> (error + string set) \<times> object_store" where
  "inspect_who_s3 bucket_name same = inspect_who_generic ''s3'' bucket_name same"

definition inspect_who_userid :: "string \<Rightarrow> Account option \<Rightarrow> object_store \<Rightarrow> (error + string set) \<times> object_store" where
  "inspect_who_userid userid same =
     inspect_who_generic ''userid'' (Some (takeWhile (\<lambda>c. c \<noteq> CHR '':'') userid)) same"

definition inspect_who_vpc :: "string \<Rightarrow> Account option \<Rightarrow> object_store \<Rightarrow> (error + string set) \<times> object_store" where
  "inspect_who_vpc vpcid same = inspect_who_generic ''vpc'' (Some vpcid) same"

definition inspect_who_vpce :: "string \<Rightarrow> Account option \<Rightarrow> object_store \<Rightarrow> (error + string set) \<times> object_store" where
  "inspect_who_vpce vpcid same = inspect_who_generic ''vpce'' (Some vpcid) same"

text \<open>
  The loop of \<open>inspect_who_cidr\<close> over the keys of the \<open>cidr\<close> table. In
  \<open>IPNetwork(cidr) in IPNetwork(str_cidr)\<close> the queried string is parsed first.
\<close>

fun cidr_loop :: "'n lib \<Rightarrow> string \<Rightarrow> Account option \<Rightarrow> string list \<Rightarrow> string set \<Rightarrow> object_store \<Rightarrow> (error + string set) \<times> object_store" where
  "cidr_loop L cidr same [] values s = (Inr values, s)"
| "cidr_loop L cidr same (str_cidr # rest) values s =
     (case IPNetwork L cidr of
        None \<Rightarrow> (Inl ValueError, s)
      | Some q \<Rightarrow>
          (case IPNetwork L str_cidr of
             None \<Rightarrow> (Inl ValueError, s)
           | Some n \<Rightarrow>
               if net_in L q n then
                 (case getitem_default s ''cidr'' of
                    (t, s1) \<Rightarrow>
                      (case map_of t str_cidr of
                         None \<Rightarrow> (Inl KeyError, s1)
                       | Some accts \<Rightarrow>
                           (case resolve_accounts accts same values s1 of
                              (Inl e, s2) \<Rightarrow> (Inl e, s2)
                            | (Inr values', s2) \<Rightarrow> cidr_loop L cidr same rest values' s2)))
               else cidr_loop L cidr same rest values s))"

definition inspect_who_cidr :: "'n lib \<Rightarrow> string \<Rightarrow> Account option \<Rightarrow> object_store \<Rightarrow> (error + string set) \<times> object_store" where
  "inspect_who_cidr L cidr same s =
     (case getitem_default s ''cidr'' of
        (t, s1) \<Rightarrow>
          (case cidr_loop L cidr same (map fst t) {} s1 of
             (Inl e, s2) \<Rightarrow> (Inl e, s2)
           | (Inr values, s2) \<Rightarrow>
               if values = {} then (Inr {''UNKNOWN''}, s2) else (Inr values, s2)))"

text \<open>
  What \<open>inspect_who\<close> returns: a set of tier names, or (last line) the bare string
  \<open>'ERROR'\<close>. \<open>x in r\<close> is membership in a set and the substring test on a string;
  \<open>r.intersection(s)\<close> exists for a set only.
\<close>

datatype resolution = RSet "string set" | RStr string

definition py_in :: "string \<Rightarrow> resolution \<Rightarrow> bool" where
  "py_in x r = (case r of RSet S \<Rightarrow> x \<in> S | RStr str \<Rightarrow> sublist x str)"

definition py_intersection :: "resolution \<Rightarrow> string set \<Rightarrow> error + string set" where
  "py_intersection r S = (case r of RSet V \<Rightarrow> Inr (V \<inter> S) | RStr _ \<Rightarrow> Inl AttributeError)"

definition record_arn_parse_issue :: "string \<Rightarrow> state \<Rightarrow> state" where
  "record_arn_parse_issue arn_input = add_issue 3 ''Auditor could not parse ARN'' (Some arn_input)"

definition inspect_who_arn :: "'n lib \<Rightarrow> string \<Rightarrow> Account option \<Rightarrow> state \<Rightarrow> (error + string set) \<times> state" where
  "inspect_who_arn L arn_input same st =
     (if arn_input = ''*'' then (Inr {''UNKNOWN''}, st)
      else
        (let a = ARN L arn_input;
             st1 = (if error a then record_arn_parse_issue arn_input st else st)
         in if tech a = Some ''s3'' then on_store (inspect_who_s3 (name a) same) st1
            else (case on_store (inspect_who_account (account_number a) same) st1 of
                    (Inl e, st2) \<Rightarrow> (Inl e, st2)
                  | (Inr t, st2) \<Rightarrow> (Inr {t}, st2))))"

definition as_set :: "(error + string set) \<times> state \<Rightarrow> (error + resolution) \<times> state" where
  "as_set r = (case r of (Inl e, st) \<Rightarrow> (Inl e, st) | (Inr V, st) \<Rightarrow> (Inr (RSet V), st))"

text \<open>
  \<open>same\<close> is \<open>Account.query.filter(Account.name == item.account).first()\<close>: the first
  account of that name, or \<open>None\<close>.
\<close>

definition inspect_who :: "'n lib \<Rightarrow> database \<Rightarrow> who \<Rightarrow> item \<Rightarrow> state \<Rightarrow> (error + resolution) \<times> state" where
  "inspect_who L db w it st =
     (let same = find (\<lambda>a. account_name a = account it) (accounts db) in
      if category w \<in> {''arn'', ''principal''} then as_set (inspect_who_arn L (who_value w) same st)
      else if category w = ''account'' then
        (case on_store (inspect_who_account (Some (who_value w)) same) st of
           (Inl e, st') \<Rightarrow> (Inl e, st')
         | (Inr t, st') \<Rightarrow> (Inr (RSet {t}), st'))
      else if category w = ''userid'' then as_set (on_store (inspect_who_userid (who_value w) same) st)
      else if category w = ''cidr'' then as_set (on_store (inspect_who_cidr L (who_value w) same) st)
      else if category w = ''vpc'' then as_set (on_store (inspect_who_vpc (who_value w) same) st)
      else if category w = ''vpce'' then as_set (on_store (inspect_who_vpce (who_value w) same) st)
      else (Inr (RStr ''ERROR''), st))"

subsection \<open>The Policy Evaluator\<close>

definition access_notes :: "who \<Rightarrow> string" where
  "access_notes w = ''Access provided to '' @ category w @ '':'' @ who_value w @ ''.''"

definition record_friendly_cross_account_access_issue :: "who \<Rightarrow> state \<Rightarrow> state" where
  "record_friendly_cross_account_access_issue w =
     add_issue 0 ''Friendly Cross Account Access'' (Some (access_notes w))"

definition record_thirdparty_cross_account_access_issue :: "who \<Rightarrow> state \<Rightarrow> state" where
  "record_thirdparty_cross_account_access_issue w =
     add_issue 0 ''Friendly Third Party Cross Account Access'' (Some (access_notes w))"

definition record_unknown_cross_account_access_issue :: "who \<Rightarrow> state \<Rightarrow> state" where
  "record_unknown_cross_account_access_issue w =
     add_issue 10 ''Unknown Cross Account Access'' (Some (access_notes w))"

text \<open>
  The body shared by the friendly and the third-party check:
  \<open>if tier in self.inspect_who(who, item): record(item, who)\<close>.
\<close>

definition tier_who :: "'n lib \<Rightarrow> database \<Rightarrow> item \<Rightarrow> string \<Rightarrow> (who \<Rightarrow> state \<Rightarrow> state) \<Rightarrow> who \<Rightarrow> state \<Rightarrow> (error + unit) \<times> state" where
  "tier_who L db it tier rec w st =
     (case inspect_who L db w it st of
        (Inl e, st') \<Rightarrow> (Inl e, st')
      | (Inr r, st') \<Rightarrow> if py_in tier r then (Inr (), rec w st') else (Inr (), st'))"

definition check_friendly_cross_account :: "'n lib \<Rightarrow> database \<Rightarrow> string list \<Rightarrow> item \<Rightarrow> state \<Rightarrow> (error + unit) \<times> state" where
  "check_friendly_cross_account L db policy_keys it =
     for_each (\<lambda>pol.
         for_each (tier_who L db it ''FRIENDLY'' record_friendly_cross_account_access_issue)
           (whos_allowed pol))
       (load_policies L policy_keys it)"

definition check_thirdparty_cross_account :: "'n lib \<Rightarrow> database \<Rightarrow> string list \<Rightarrow> item \<Rightarrow> state \<Rightarrow> (error + unit) \<times> state" where
  "check_thirdparty_cross_account L db policy_keys it =
     for_each (\<lambda>pol.
         for_each (tier_who L db it ''THIRDPARTY'' record_thirdparty_cross_account_access_issue)
           (whos_allowed pol))
       (load_policies L policy_keys it)"

definition unknown_who :: "'n lib \<Rightarrow> database \<Rightarrow> item \<Rightarrow> who \<Rightarrow> state \<Rightarrow> (error + unit) \<times> state" where
  "unknown_who L db it w st =
     (if who_value w = ''*'' \<and> category w = ''principal'' then (Inr (), st)
      else if category w = ''principal'' \<and> service (ARN L (who_value w)) then (Inr (), st)
      else tier_who L db it ''UNKNOWN'' record_unknown_cross_account_access_issue w st)"

definition check_unknown_cross_account :: "'n lib \<Rightarrow> database \<Rightarrow> string list \<Rightarrow> item \<Rightarrow> state \<Rightarrow> (error + unit) \<times> state" where
  "check_unknown_cross_account L db policy_keys it =
     for_each (\<lambda>pol st.
         if is_internet_accessible pol then (Inr (), st)
         else for_each (unknown_who L db it) (whos_allowed pol) st)
       (load_policies L policy_keys it)"

text \<open>
  The body of the root check. In \<open>arn.root and self.inspect_who(...).intersection(...)\<close>
  the resolver runs only when \<open>arn.root\<close> holds.
\<close>

definition root_who :: "'n lib \<Rightarrow> database \<Rightarrow> item \<Rightarrow> statement \<Rightarrow> who \<Rightarrow> state \<Rightarrow> (error + unit) \<times> state" where
  "root_who L db it stmt w st =
     (if category w \<notin> {''arn'', ''principal''} then (Inr (), st)
      else if who_value w = ''*'' then (Inr (), st)
      else
        (let a = ARN L (who_value w) in
         if root a then
           (case inspect_who L db w it st of
              (Inl e, st') \<Rightarrow> (Inl e, st')
            | (Inr r, st') \<Rightarrow>
                (case py_intersection r {''FRIENDLY'', ''THIRDPARTY'', ''UNKNOWN''} of
                   Inl e \<Rightarrow> (Inl e, st')
                 | Inr V \<Rightarrow>
                     if V \<noteq> {} then (Inr (), check_cross_account_root a (actions stmt) st')
                     else (Inr (), st')))
         else (Inr (), st)))"

definition check_root_cross_account :: "'n lib \<Rightarrow> database \<Rightarrow> string list \<Rightarrow> item \<Rightarrow> state \<Rightarrow> (error + unit) \<times> state" where
  "check_root_cross_account L db policy_keys it =
     for_each (\<lambda>pol.
         for_each (\<lambda>stmt st.
             if effect stmt \<noteq> ''Allow'' then (Inr (), st)
             else for_each (root_who L db it stmt) (statement_whos_allowed stmt) st)
           (statements pol))
       (load_policies L policy_keys it)"

subsection \<open>The SNS auditor\<close>

text \<open>
  \<open>snsitem.config.get('policy', {}) == {}\<close>: the default is the empty dict, and a value
  equals \<open>{}\<close> when it is the empty dict.
\<close>

definition check_snstopicpolicy_empty :: "item \<Rightarrow> state \<Rightarrow> state" where
  "check_snstopicpolicy_empty snsitem st =
     (if (case map_of (config snsitem) ''policy'' of None \<Rightarrow> JDict [] | Some v \<Rightarrow> v) = JDict []
      then add_issue 1 ''SNS Topic Policy is empty'' None st
      else st)"

section \<open>Vocabulary of the statements\<close>

text \<open>
  \<open>frame s s'\<close>: every table of \<open>s\<close> is in \<open>s'\<close> with the same contents, and a
  table name that \<open>s\<close> lacks is either still absent from \<open>s'\<close> or holds an empty
  table there. \<open>extends s s'\<close>: \<open>s'\<close> is \<open>s\<close> followed by entries for empty tables.
  \<open>table_of s n\<close>: what a read of table \<open>n\<close> sees (the empty table for an absent
  name).
\<close>

definition frame :: "object_store \<Rightarrow> object_store \<Rightarrow> bool" where
  "frame s s' =
     ((\<forall>tname t. map_of s tname = Some t \<longrightarrow> map_of s' tname = Some t) \<and>
      (\<forall>tname. map_of s tname = None \<longrightarrow> map_of s' tname = None \<or> map_of s' tname = Some []))"

definition extends :: "object_store \<Rightarrow> object_store \<Rightarrow> bool" where
  "extends s s' = (\<exists>e. s' = s @ e \<and> (\<forall>x \<in> set e. snd x = []))"

definition table_of :: "object_store \<Rightarrow> string \<Rightarrow> table" where
  "table_of s tname = (case map_of s tname of Some t \<Rightarrow> t | None \<Rightarrow> [])"

text \<open>
  The spec's \<open>resolveAccount\<close>, from its five rules in order, over the home account and
  the two registry sets. \<open>registry_built s friendly thirdparty\<close>: the store has the
  \<open>ACCOUNTS\<close> table with the two sets, as the builder leaves it.
\<close>

definition resolveAccount :: "string option \<Rightarrow> Account \<Rightarrow> string list \<Rightarrow> string list \<Rightarrow> string" where
  "resolveAccount a home friendly thirdparty =
     (if a = Some ''000000000000'' then ''SAME''
      else if a = Some (account_identifier home) then ''SAME''
      else if in_accounts a friendly then ''FRIENDLY''
      else if in_accounts a thirdparty then ''THIRDPARTY''
      else ''UNKNOWN'')"

definition registry_built :: "object_store \<Rightarrow> string list \<Rightarrow> string list \<Rightarrow> bool" where
  "registry_built s friendly thirdparty =
     (case map_of s ''ACCOUNTS'' of
        None \<Rightarrow> False
      | Some registry \<Rightarrow>
          map_of registry ''FRIENDLY'' = Some friendly \<and>
          map_of registry ''THIRDPARTY'' = Some thirdparty)"

definition tier_names :: "string set" where
  "tier_names = {''SAME'', ''FRIENDLY'', ''THIRDPARTY'', ''UNKNOWN''}"

text \<open>
  The spec's \<open>cidrLookup\<close>: the union of the owning accounts of every entry of the
  \<open>cidr\<close> table whose network contains the queried network \<open>q\<close>.
\<close>

definition contains_query :: "'n lib \<Rightarrow> 'n \<Rightarrow> string \<Rightarrow> bool" where
  "contains_query L q str_cidr =
     (case IPNetwork L str_cidr of None \<Rightarrow> False | Some n \<Rightarrow> net_in L q n)"

definition cidrLookup :: "'n lib \<Rightarrow> table \<Rightarrow> 'n \<Rightarrow> string set" where
  "cidrLookup L t q =
     (\<Union>k \<in> set (map fst t).
        if contains_query L q k then (case map_of t k of None \<Rightarrow> {} | Some accts \<Rightarrow> set accts)
        else {})"

text \<open>
  \<open>parse_issues L w\<close>: the finding that resolving \<open>w\<close> records when \<open>w\<close> is an
  unparsable ARN. \<open>resolves\<close>: the resolver returns on \<open>w\<close> in state \<open>st\<close> rather than
  raising; \<open>resolved\<close>: what it returns then.
\<close>

definition parse_issues :: "'n lib \<Rightarrow> who \<Rightarrow> issue list" where
  "parse_issues L w =
     (if category w \<in> {''arn'', ''principal''} \<and> who_value w \<noteq> ''*'' \<and> error (ARN L (who_value w))
      then [Finding 3 ''Auditor could not parse ARN'' (Some (who_value w))] else [])"

definition resolves :: "'n lib \<Rightarrow> database \<Rightarrow> item \<Rightarrow> state \<Rightarrow> who \<Rightarrow> bool" where
  "resolves L db it st w = (case fst (inspect_who L db w it st) of Inr r \<Rightarrow> True | Inl e \<Rightarrow> False)"

definition resolved :: "'n lib \<Rightarrow> database \<Rightarrow> item \<Rightarrow> state \<Rightarrow> who \<Rightarrow> resolution" where
  "resolved L db it st w =
     (case fst (inspect_who L db w it st) of Inr r \<Rightarrow> r | Inl e \<Rightarrow> RSet {})"

text \<open>
  The unknown cross-account check. \<open>unknown_gate\<close>: the reference is not the bare wildcard
  principal and is not a principal whose ARN has the service field set.
  \<open>unknown_references\<close>: the references, in the order the check meets them, of the
  policies that are not internet-accessible, that pass the gate and whose resolution holds
  UNKNOWN.
\<close>

definition unknown_gate :: "'n lib \<Rightarrow> who \<Rightarrow> bool" where
  "unknown_gate L w =
     (\<not> (who_value w = ''*'' \<and> category w = ''principal'') \<and>
      \<not> (category w = ''principal'' \<and> service (ARN L (who_value w))))"

definition unknown_finding :: "who \<Rightarrow> issue" where
  "unknown_finding w = Finding 10 ''Unknown Cross Account Access'' (Some (access_notes w))"

definition is_unknown_finding :: "issue \<Rightarrow> bool" where
  "is_unknown_finding i =
     (case i of Finding score tag notes \<Rightarrow> score = 10 \<and> tag = ''Unknown Cross Account Access''
      | RootFinding a acts \<Rightarrow> False)"

definition unknown_references :: "'n lib \<Rightarrow> database \<Rightarrow> item \<Rightarrow> state \<Rightarrow> policy list \<Rightarrow> who list" where
  "unknown_references L db it st pols =
     concat (map (\<lambda>pol. if is_internet_accessible pol then []
                         else filter (\<lambda>w. unknown_gate L w \<and> py_in ''UNKNOWN'' (resolved L db it st w))
                                (whos_allowed pol)) pols)"

text \<open>
  The root cross-account check. \<open>root_gate\<close>: category \<open>arn\<close> or \<open>principal\<close>, value
  not \<open>*\<close>, and the parsed ARN is a root user's. \<open>root_findings\<close>: one root-access
  finding, with the statement's actions, for every reference of an Allow statement that
  passes the gate and whose resolution meets FRIENDLY, THIRDPARTY or UNKNOWN.
\<close>

definition root_gate :: "'n lib \<Rightarrow> who \<Rightarrow> bool" where
  "root_gate L w =
     (category w \<in> {''arn'', ''principal''} \<and> who_value w \<noteq> ''*'' \<and> root (ARN L (who_value w)))"

definition intersects :: "resolution \<Rightarrow> string set \<Rightarrow> bool" where
  "intersects r S = (case r of RSet V \<Rightarrow> V \<inter> S \<noteq> {} | RStr str \<Rightarrow> False)"

definition is_root_finding :: "issue \<Rightarrow> bool" where
  "is_root_finding i = (case i of Finding score tag notes \<Rightarrow> False | RootFinding a acts \<Rightarrow> True)"

definition root_findings :: "'n lib \<Rightarrow> database \<Rightarrow> item \<Rightarrow> state \<Rightarrow> policy list \<Rightarrow> issue list" where
  "root_findings L db it st pols =
     concat (map (\<lambda>pol.
       concat (map (\<lambda>stmt.
         if effect stmt \<noteq> ''Allow'' then []
         else map (\<lambda>w. RootFinding (ARN L (who_value w)) (actions stmt))
                (filter (\<lambda>w. root_gate L w \<and>
                              intersects (resolved L db it st w) {''FRIENDLY'', ''THIRDPARTY'', ''UNKNOWN''})
                   (statement_whos_allowed stmt)))
         (statements pol))) pols)"

subsection \<open>A worked example\<close>

text \<open>
  A small deployment for the concrete evaluations below. \<open>example_ARN\<close> lists, for
  three strings, the fields the \<open>ARN\<close> class computes for them, and takes every other
  string to be unparsable. \<open>example_IPNetwork\<close> gives three networks as their first and
  last address; a network is in another when its range lies within the other's.
  \<open>example_Policy\<close> reads a document \<open>{c: v}\<close> as a policy with one Allow statement
  whose only reference has category \<open>c\<close> and value \<open>v\<close>. \<open>example_store\<close> is what
  the builder makes of \<open>example_db\<close>.
\<close>

definition example_ARN :: "string \<Rightarrow> arn" where
  "example_ARN s =
     (if s = ''arn:aws:iam::333333333333:root'' then
        \<lparr>tech = Some ''iam'', name = Some ''root'', account_number = Some ''333333333333'',
         error = False, root = True, service = False\<rparr>
      else if s = ''arn:aws:iam::222222222222:role/foo'' then
        \<lparr>tech = Some ''iam'', name = Some ''role/foo'', account_number = Some ''222222222222'',
         error = False, root = False, service = False\<rparr>
      else if s = ''lambda.amazonaws.com'' then
        \<lparr>tech = Some ''lambda'', name = None, account_number = None,
         error = False, root = False, service = True\<rparr>
      else
        \<lparr>tech = None, name = None, account_number = None,
         error = True, root = False, service = False\<rparr>)"

definition example_IPNetwork :: "string \<Rightarrow> (nat \<times> nat) option" where
  "example_IPNetwork s =
     (if s = ''10.0.0.0/8'' then Some (167772160, 184549375)
      else if s = ''10.1.0.0/16'' then Some (167837696, 167903231)
      else if s = ''192.168.0.0/24'' then Some (3232235520, 3232235775)
      else None)"

definition example_policy :: "who list \<Rightarrow> policy" where
  "example_policy ws =
     \<lparr>is_internet_accessible = False,
      statements = [\<lparr>effect = ''Allow'', actions = [''sns:Publish''], statement_whos_allowed = ws\<rparr>],
      whos_allowed = ws\<rparr>"

definition example_Policy :: "json \<Rightarrow> policy" where
  "example_Policy doc =
     (case doc of
        JDict [(c, JStr v)] \<Rightarrow> example_policy [\<lparr>category = c, who_value = v\<rparr>]
      | _ \<Rightarrow> example_policy [])"

definition example_lib :: "(nat \<times> nat) lib" where
  "example_lib =
     \<lparr>ARN = example_ARN,
      IPNetwork = example_IPNetwork,
      net_in = (\<lambda>a b. fst b \<le> fst a \<and> snd a \<le> snd b),
      dpath_values = (\<lambda>cfg key. JList (case map_of cfg key of None \<Rightarrow> [] | Some v \<Rightarrow> [v])),
      Policy = example_Policy\<rparr>"

definition example_db :: database where
  "example_db =
     \<lparr>items =
        [\<lparr>technology = ''s3'', item_name = Some ''bucket-a'', owner_identifier = ''111111111111'',
          latest_config = \<lparr>scalars = [], nat_gateway_addresses = None\<rparr>\<rparr>,
         \<lparr>technology = ''vpc'', item_name = Some ''main'', owner_identifier = ''012345678910'',
          latest_config = \<lparr>scalars = [(''id'', Some ''vpc-1''), (''cidr_block'', Some ''10.0.0.0/8'')],
                           nat_gateway_addresses = None\<rparr>\<rparr>],
      accounts =
        [\<lparr>account_name = ''prod'', account_identifier = ''012345678910'', third_party = False\<rparr>,
         \<lparr>account_name = ''dev'', account_identifier = ''111111111111'', third_party = False\<rparr>,
         \<lparr>account_name = ''partner'', account_identifier = ''333333333333'', third_party = True\<rparr>],
      network_whitelist = [Some ''192.168.0.0/24'']\<rparr>"

definition example_store :: object_store where
  "example_store =
     [(''s3'', [(''bucket-a'', [''111111111111''])]),
      (''ACCOUNTS'', [(''FRIENDLY'', [''111111111111'', ''012345678910'']),
                      (''THIRDPARTY'', [''333333333333''])]),
      (''vpc'', [(''vpc-1'', [''012345678910''])]),
      (''cidr'', [(''10.0.0.0/8'', [''012345678910'']), (''192.168.0.0/24'', [''000000000000''])])]"

definition example_item :: item where
  "example_item = \<lparr>account = ''prod'', config = []\<rparr>"

definition example_state :: state where
  "example_state = \<lparr>OBJECT_STORE = example_store, audit_issues = []\<rparr>"

definition example_home :: Account where
  "example_home = \<lparr>account_name = ''prod'', account_identifier = ''012345678910'', third_party = False\<rparr>"

text \<open>An item of account \<open>prod\<close> whose policy document is \<open>{c: v}\<close>.\<close>

definition example_policy_item :: "string \<Rightarrow> string \<Rightarrow> item" where
  "example_policy_item c v = \<lparr>account = ''prod'', config = [(''Policy'', JDict [(c, JStr v)])]\<rparr>"

section \<open>The index-add operation\<close>

lemma map_of_append_single:
  "map_of to k = None \<Longrightarrow> map_of (to @ [(k, v)]) = (map_of to)(k \<mapsto> v)"
  by (rule ext) (auto simp: map_add_def split: option.splits)

lemma map_of_add_nonempty:
  "k \<noteq> [] \<Longrightarrow>
   map_of (add to (Some k) val) =
     (map_of to)(k \<mapsto> (case map_of to k of Some s \<Rightarrow> List.insert val s | None \<Rightarrow> [val]))"
  by (auto simp: add_def AList.update_conv' map_of_append_single
        simp del: map_of_append split: option.splits)

text \<open>
  Claim C5. \<open>add\<close> with an absent (\<open>None\<close>) or empty key returns the table as it
  was. With a non-empty key \<open>k\<close>, the set stored under \<open>k\<close> afterwards is the old set
  (empty when \<open>k\<close> was not a key) with the account id inserted, every other key keeps
  its set, and every association of the old table is still there: each old key is a key
  of the new table and each account id of its set is still in its set.
\<close>

theorem add_purely_additive:
  "add to None acct = to \<and>
   add to (Some []) acct = to \<and>
   (k \<noteq> [] \<longrightarrow>
     (\<exists>s. map_of (add to (Some k) acct) k = Some s \<and>
          set s = insert acct (case map_of to k of Some old \<Rightarrow> set old | None \<Rightarrow> {})) \<and>
     (\<forall>k'. k' \<noteq> k \<longrightarrow> map_of (add to (Some k) acct) k' = map_of to k') \<and>
     (\<forall>k' old. map_of to k' = Some old \<longrightarrow>
        (\<exists>s. map_of (add to (Some k) acct) k' = Some s \<and> set old \<subseteq> set s)))"
proof (intro conjI impI)
  show "add to None acct = to" by (simp add: add_def)
  show "add to (Some []) acct = to" by (simp add: add_def)
next
  assume k: "k \<noteq> []"
  show "\<exists>s. map_of (add to (Some k) acct) k = Some s \<and>
          set s = insert acct (case map_of to k of Some old \<Rightarrow> set old | None \<Rightarrow> {})"
    using k by (auto simp: map_of_add_nonempty split: option.splits)
  show "\<forall>k'. k' \<noteq> k \<longrightarrow> map_of (add to (Some k) acct) k' = map_of to k'"
    using k by (simp add: map_of_add_nonempty)
  show "\<forall>k' old. map_of to k' = Some old \<longrightarrow>
        (\<exists>s. map_of (add to (Some k) acct) k' = Some s \<and> set old \<subseteq> set s)"
    using k by (auto simp: map_of_add_nonempty)
qed

theorem add_purely_additive_witness:
  "''vpc-1'' \<noteq> [] \<and>
   add [(''vpc-1'', [''111111111111''])] None ''222222222222'' = [(''vpc-1'', [''111111111111''])] \<and>
   add [(''vpc-1'', [''111111111111''])] (Some ''vpc-1'') ''222222222222''
     = [(''vpc-1'', [''222222222222'', ''111111111111''])] \<and>
   (\<exists>s. map_of (add [(''vpc-1'', [''111111111111''])] (Some ''vpc-1'') ''222222222222'') ''vpc-1'' = Some s \<and>
        set s = {''222222222222'', ''111111111111''})"
  using add_purely_additive [of "[(''vpc-1'', [''111111111111''])]" "''222222222222''" "''vpc-1''"]
  by (simp add: add_def)

section \<open>Evaluation of the worked example\<close>

lemmas example_simps =
  example_lib_def example_ARN_def example_IPNetwork_def example_Policy_def example_policy_def
  example_db_def example_store_def example_item_def example_state_def

lemmas resolver_simps =
  inspect_who_def inspect_who_arn_def inspect_who_account_def inspect_who_generic_def
  inspect_who_s3_def inspect_who_userid_def inspect_who_vpc_def inspect_who_vpce_def
  inspect_who_cidr_def on_store_def as_set_def getitem_default_def in_accounts_def
  record_arn_parse_issue_def add_issue_def

lemmas check_simps =
  check_unknown_cross_account_def check_friendly_cross_account_def
  check_thirdparty_cross_account_def check_root_cross_account_def
  unknown_who_def tier_who_def root_who_def py_in_def py_intersection_def
  record_unknown_cross_account_access_issue_def record_friendly_cross_account_access_issue_def
  record_thirdparty_cross_account_access_issue_def check_cross_account_root_def access_notes_def

lemmas statement_simps =
  resolves_def resolved_def unknown_gate_def unknown_finding_def is_unknown_finding_def
  unknown_references_def root_gate_def intersects_def is_root_finding_def root_findings_def
  registry_built_def resolveAccount_def contains_query_def cidrLookup_def table_of_def

lemma load_policies_example:
  "load_policies example_lib [''Policy''] (example_policy_item c v)
     = [example_policy [\<lparr>category = c, who_value = v\<rparr>]]"
  by (simp add: load_policies_def policies_at_def example_lib_def example_Policy_def
        example_policy_item_def)

lemma prep_for_audit_example: "prep_for_audit example_db [] = (Inr (), example_store)"
  by (simp add: prep_for_audit_def then_do_def load_s3_buckets_def load_userids_def
      load_accounts_def load_vpcs_def load_vpces_def load_natgateways_def
      load_network_whitelist_def load_related_items_def example_db_def example_store_def
      store_add_def store_reset_def getitem_default_def add_def config_get_def)

section \<open>Resolution and the Knowledge Base\<close>

lemma extends_refl [simp]: "extends s s"
  by (simp add: extends_def)

lemma extends_trans: "extends s s' \<Longrightarrow> extends s' s'' \<Longrightarrow> extends s s''"
  by (fastforce simp: extends_def)

lemma extends_getitem_default: "extends s (snd (getitem_default s k))"
  by (auto simp: extends_def getitem_default_def split: option.splits)

lemma extends_frame: "extends s s' \<Longrightarrow> frame s s'"
proof -
  assume "extends s s'"
  then obtain e where e: "s' = s @ e" "\<forall>x \<in> set e. snd x = []"
    by (auto simp: extends_def)
  have "map_of e n = None \<or> map_of e n = Some []" for n
  proof (cases "map_of e n")
    case (Some t)
    then have "(n, t) \<in> set e" by (rule map_of_SomeD)
    with e(2) Some show ?thesis by auto
  qed simp
  then show ?thesis
    unfolding frame_def e(1) by (auto simp: map_add_def split: option.splits)
qed

lemma extends_inspect_who_account: "extends s (snd (inspect_who_account a same s))"
proof -
  have 1: "extends s (snd (getitem_default s ''ACCOUNTS''))" by (rule extends_getitem_default)
  have 2: "extends s (snd (getitem_default (snd (getitem_default s ''ACCOUNTS'')) ''ACCOUNTS''))"
    by (rule extends_trans [OF 1]) (rule extends_getitem_default)
  show ?thesis
    using 1 2 by (auto simp: inspect_who_account_def case_prod_unfold split: option.splits)
qed

lemma extends_resolve_accounts: "extends s (snd (resolve_accounts accts same vals s))"
proof (induction accts arbitrary: vals s)
  case Nil
  show ?case by simp
next
  case (Cons a rest)
  have "extends s (snd (inspect_who_account (Some a) same s))"
    by (rule extends_inspect_who_account)
  with Cons show ?case
    by (auto simp: case_prod_unfold split: sum.splits intro: extends_trans)
qed

lemma extends_inspect_who_generic: "extends s (snd (inspect_who_generic key it same s))"
proof -
  let ?s1 = "snd (getitem_default s key)"
  let ?s2 = "snd (getitem_default ?s1 key)"
  have 1: "extends s ?s1" by (rule extends_getitem_default)
  have 2: "extends s ?s2" by (rule extends_trans [OF 1]) (rule extends_getitem_default)
  have 3: "extends s (snd (resolve_accounts accts same {} ?s2))" for accts
    by (rule extends_trans [OF 2]) (rule extends_resolve_accounts)
  show ?thesis
    using 1 2 3 by (auto simp: inspect_who_generic_def case_prod_unfold split: option.splits)
qed

lemma extends_cidr_loop: "extends s (snd (cidr_loop L cidr same keys vals s))"
proof (induction keys arbitrary: vals s)
  case Nil
  show ?case by simp
next
  case (Cons k rest)
  let ?s1 = "snd (getitem_default s ''cidr'')"
  have 1: "extends s ?s1" by (rule extends_getitem_default)
  have 2: "extends s (snd (resolve_accounts accts same vals ?s1))" for accts
    by (rule extends_trans [OF 1]) (rule extends_resolve_accounts)
  have 3: "extends s (snd (cidr_loop L cidr same rest values' (snd (resolve_accounts accts same vals ?s1))))"
    for accts values'
    by (rule extends_trans [OF 2]) (rule Cons.IH)
  show ?case
    using 1 2 3 Cons.IH
    by (auto simp: case_prod_unfold split: option.splits sum.splits)
qed

lemma extends_inspect_who_cidr: "extends s (snd (inspect_who_cidr L cidr same s))"
proof -
  let ?s1 = "snd (getitem_default s ''cidr'')"
  have 1: "extends s ?s1" by (rule extends_getitem_default)
  have 2: "extends s (snd (cidr_loop L cidr same keys {} ?s1))" for keys
    by (rule extends_trans [OF 1]) (rule extends_cidr_loop)
  show ?thesis
    using 1 2 by (auto simp: inspect_who_cidr_def case_prod_unfold split: sum.splits)
qed

lemma OBJECT_STORE_on_store [simp]:
  "OBJECT_STORE (snd (on_store f st)) = snd (f (OBJECT_STORE st))"
  by (simp add: on_store_def case_prod_unfold)

lemma audit_issues_on_store [simp]:
  "audit_issues (snd (on_store f st)) = audit_issues st"
  by (simp add: on_store_def case_prod_unfold)

lemma fst_on_store [simp]: "fst (on_store f st) = fst (f (OBJECT_STORE st))"
  by (simp add: on_store_def case_prod_unfold)

lemma snd_as_set [simp]: "snd (as_set r) = snd r"
  by (auto simp: as_set_def split: prod.splits sum.splits)

lemma fst_as_set:
  "fst (as_set r) = (case fst r of Inl e \<Rightarrow> Inl e | Inr V \<Rightarrow> Inr (RSet V))"
  by (auto simp: as_set_def split: prod.splits sum.splits)

lemma OBJECT_STORE_record_arn_parse_issue [simp]:
  "OBJECT_STORE (record_arn_parse_issue v st) = OBJECT_STORE st"
  by (simp add: record_arn_parse_issue_def add_issue_def)

lemma extends_inspect_who_arn:
  "extends (OBJECT_STORE st) (OBJECT_STORE (snd (inspect_who_arn L arn_input same st)))"
  by (auto simp: inspect_who_arn_def Let_def case_prod_unfold record_arn_parse_issue_def
        add_issue_def inspect_who_s3_def extends_inspect_who_generic extends_inspect_who_account
      split: sum.splits)

lemma extends_inspect_who:
  "extends (OBJECT_STORE st) (OBJECT_STORE (snd (inspect_who L db w it st)))"
  by (auto simp: inspect_who_def Let_def case_prod_unfold extends_inspect_who_arn
        inspect_who_userid_def inspect_who_vpc_def inspect_who_vpce_def
        extends_inspect_who_generic extends_inspect_who_account extends_inspect_who_cidr
      split: sum.splits)

text \<open>
  Claim C9, as amended. A resolution operation leaves every table of the Knowledge Base
  and its contents as they were and creates no key inside a table; the one change it can
  make is to enter a table name that was absent, with an empty table (the read
  \<open>OBJECT_STORE[name]\<close> on the \<open>defaultdict\<close>). This holds for \<open>inspect_who\<close> and
  for \<open>inspect_who_generic\<close>, \<open>inspect_who_cidr\<close> and \<open>inspect_who_account\<close>,
  whether they return or raise.
\<close>

theorem resolution_frame:
  "frame (OBJECT_STORE st) (OBJECT_STORE (snd (inspect_who L db w it st))) \<and>
   frame s (snd (inspect_who_generic key k same s)) \<and>
   frame s (snd (inspect_who_cidr L cidr same s)) \<and>
   frame s (snd (inspect_who_account acct same s))"
  by (intro conjI extends_frame extends_inspect_who extends_inspect_who_generic
        extends_inspect_who_cidr extends_inspect_who_account)

text \<open>
  The claim as it was stated fails on a store the builder made of a repository without
  VPC endpoints: resolving a \<open>vpce\<close> reference enters the table name \<open>vpce\<close>.
\<close>

theorem resolution_frame_counterexample:
  "map_of example_store ''vpce'' = None \<and>
   OBJECT_STORE (snd (inspect_who example_lib example_db
       \<lparr>category = ''vpce'', who_value = ''vpce-1''\<rparr> example_item example_state))
     = example_store @ [(''vpce'', [])] \<and>
   OBJECT_STORE (snd (inspect_who example_lib example_db
       \<lparr>category = ''vpce'', who_value = ''vpce-1''\<rparr> example_item example_state))
     \<noteq> example_store"
  by (simp add: resolver_simps example_simps)

theorem resolution_frame_witness:
  "map_of example_store ''s3'' = Some [(''bucket-a'', [''111111111111''])] \<and>
   map_of (OBJECT_STORE (snd (inspect_who example_lib example_db
       \<lparr>category = ''vpce'', who_value = ''vpce-1''\<rparr> example_item example_state))) ''s3''
     = Some [(''bucket-a'', [''111111111111''])] \<and>
   map_of example_store ''vpce'' = None \<and>
   map_of (OBJECT_STORE (snd (inspect_who example_lib example_db
       \<lparr>category = ''vpce'', who_value = ''vpce-1''\<rparr> example_item example_state))) ''vpce''
     = Some []"
  using resolution_frame [of example_state example_lib example_db
      "\<lparr>category = ''vpce'', who_value = ''vpce-1''\<rparr>" example_item]
  by (simp add: frame_def resolver_simps example_simps)

subsection \<open>What a resolution returns depends on the tables only\<close>

lemma fst_getitem_default: "fst (getitem_default s k) = table_of s k"
  by (simp add: getitem_default_def table_of_def split: option.splits)

lemma extends_table_of: "extends s s' \<Longrightarrow> table_of s' = table_of s"
proof -
  assume "extends s s'"
  then have f: "frame s s'" by (rule extends_frame)
  show ?thesis
  proof (rule ext)
    fix n
    show "table_of s' n = table_of s n"
    proof (cases "map_of s n")
      case None
      with f have "map_of s' n = None \<or> map_of s' n = Some []"
        by (simp add: frame_def)
      with None show ?thesis by (auto simp: table_of_def)
    next
      case (Some t)
      with f have "map_of s' n = Some t" by (simp add: frame_def)
      with Some show ?thesis by (simp add: table_of_def)
    qed
  qed
qed

lemma table_of_getitem_default: "table_of (snd (getitem_default s k)) = table_of s"
  by (rule extends_table_of) (rule extends_getitem_default)

lemma fst_inspect_who_account_view:
  "table_of s = table_of s' \<Longrightarrow>
   fst (inspect_who_account a same s) = fst (inspect_who_account a same s')"
  by (auto simp: inspect_who_account_def case_prod_unfold fst_getitem_default
        table_of_getitem_default split: option.splits)

lemma table_of_inspect_who_account:
  "table_of (snd (inspect_who_account a same s)) = table_of s"
  by (rule extends_table_of) (rule extends_inspect_who_account)

lemma fst_resolve_accounts_view:
  "table_of s = table_of s' \<Longrightarrow>
   fst (resolve_accounts accts same vals s) = fst (resolve_accounts accts same vals s')"
proof (induction accts arbitrary: vals s s')
  case Nil
  show ?case by simp
next
  case (Cons a rest)
  let ?r = "inspect_who_account (Some a) same s"
  let ?r' = "inspect_who_account (Some a) same s'"
  have f: "fst ?r = fst ?r'"
    using Cons.prems by (rule fst_inspect_who_account_view)
  have t: "table_of (snd ?r) = table_of (snd ?r')"
    using Cons.prems by (simp add: table_of_inspect_who_account)
  show ?case
  proof (cases "fst ?r'")
    case (Inl e)
    with f show ?thesis by (simp add: case_prod_unfold)
  next
    case (Inr t')
    with f Cons.IH [OF t] show ?thesis by (simp add: case_prod_unfold)
  qed
qed

lemma table_of_resolve_accounts:
  "table_of (snd (resolve_accounts accts same vals s)) = table_of s"
  by (rule extends_table_of) (rule extends_resolve_accounts)

lemma fst_inspect_who_generic_view:
  assumes "table_of s = table_of s'"
  shows "fst (inspect_who_generic key it same s) = fst (inspect_who_generic key it same s')"
proof -
  let ?s2 = "snd (getitem_default (snd (getitem_default s key)) key)"
  let ?s2' = "snd (getitem_default (snd (getitem_default s' key)) key)"
  have "table_of ?s2 = table_of ?s2'"
    using assms by (simp add: table_of_getitem_default)
  then have "fst (resolve_accounts accts same {} ?s2) = fst (resolve_accounts accts same {} ?s2')"
    for accts
    by (rule fst_resolve_accounts_view)
  then show ?thesis
    using assms
    by (auto simp: inspect_who_generic_def case_prod_unfold fst_getitem_default
          table_of_getitem_default split: option.splits)
qed

lemma fst_cidr_loop_view:
  "table_of s = table_of s' \<Longrightarrow>
   fst (cidr_loop L cidr same keys vals s) = fst (cidr_loop L cidr same keys vals s')"
proof (induction keys arbitrary: vals s s')
  case Nil
  show ?case by simp
next
  case (Cons k rest)
  let ?s1 = "snd (getitem_default s ''cidr'')"
  let ?s1' = "snd (getitem_default s' ''cidr'')"
  have t1: "table_of ?s1 = table_of ?s1'"
    using Cons.prems by (simp add: table_of_getitem_default)
  have r: "fst (resolve_accounts accts same vals ?s1) = fst (resolve_accounts accts same vals ?s1')"
    for accts
    using t1 by (rule fst_resolve_accounts_view)
  have t2: "table_of (snd (resolve_accounts accts same vals ?s1))
              = table_of (snd (resolve_accounts accts same vals ?s1'))" for accts
    using t1 by (simp add: table_of_resolve_accounts)
  have l: "fst (cidr_loop L cidr same rest v (snd (resolve_accounts accts same vals ?s1)))
           = fst (cidr_loop L cidr same rest v (snd (resolve_accounts accts same vals ?s1')))"
    for accts v
    using t2 by (rule Cons.IH)
  show ?case
    using Cons.prems r l Cons.IH [OF Cons.prems]
    by (auto simp: case_prod_unfold fst_getitem_default split: option.splits sum.splits)
qed

lemma fst_inspect_who_cidr_view:
  assumes "table_of s = table_of s'"
  shows "fst (inspect_who_cidr L cidr same s) = fst (inspect_who_cidr L cidr same s')"
proof -
  let ?s1 = "snd (getitem_default s ''cidr'')"
  let ?s1' = "snd (getitem_default s' ''cidr'')"
  have "table_of ?s1 = table_of ?s1'"
    using assms by (simp add: table_of_getitem_default)
  then have "fst (cidr_loop L cidr same keys {} ?s1) = fst (cidr_loop L cidr same keys {} ?s1')"
    for keys
    by (rule fst_cidr_loop_view)
  then show ?thesis
    using assms
    by (auto simp: inspect_who_cidr_def case_prod_unfold fst_getitem_default split: sum.splits)
qed

lemma fst_inspect_who_arn_view:
  assumes "table_of (OBJECT_STORE st) = table_of (OBJECT_STORE st')"
  shows "fst (inspect_who_arn L v same st) = fst (inspect_who_arn L v same st')"
proof -
  have g: "fst (inspect_who_generic ''s3'' n same (OBJECT_STORE st))
         = fst (inspect_who_generic ''s3'' n same (OBJECT_STORE st'))" for n
    using assms by (rule fst_inspect_who_generic_view)
  have a: "fst (inspect_who_account n same (OBJECT_STORE st))
         = fst (inspect_who_account n same (OBJECT_STORE st'))" for n
    using assms by (rule fst_inspect_who_account_view)
  show ?thesis
    by (simp add: inspect_who_arn_def Let_def case_prod_unfold inspect_who_s3_def g a
          split: sum.splits)
qed

lemma fst_inspect_who_view:
  assumes "table_of (OBJECT_STORE st) = table_of (OBJECT_STORE st')"
  shows "fst (inspect_who L db w it st) = fst (inspect_who L db w it st')"
proof -
  note v = assms
  show ?thesis
    by (simp add: inspect_who_def Let_def case_prod_unfold fst_as_set
          fst_inspect_who_arn_view [OF v] fst_inspect_who_account_view [OF v]
          fst_inspect_who_generic_view [OF v] fst_inspect_who_cidr_view [OF v]
          inspect_who_userid_def inspect_who_vpc_def inspect_who_vpce_def
          split: sum.splits)
qed

lemma table_of_inspect_who:
  "table_of (OBJECT_STORE (snd (inspect_who L db w it st))) = table_of (OBJECT_STORE st)"
  by (rule extends_table_of) (rule extends_inspect_who)

lemma audit_issues_inspect_who_arn:
  "audit_issues (snd (inspect_who_arn L v same st)) =
     audit_issues st @ (if v \<noteq> ''*'' \<and> error (ARN L v)
                        then [Finding 3 ''Auditor could not parse ARN'' (Some v)] else [])"
  by (simp add: inspect_who_arn_def Let_def case_prod_unfold record_arn_parse_issue_def
        add_issue_def split: sum.splits)

lemma audit_issues_inspect_who:
  "audit_issues (snd (inspect_who L db w it st)) = audit_issues st @ parse_issues L w"
  by (auto simp: inspect_who_def Let_def case_prod_unfold parse_issues_def
        audit_issues_inspect_who_arn split: sum.splits)

section \<open>Account resolution\<close>

lemma getitem_default_present:
  "map_of s k = Some t \<Longrightarrow> getitem_default s k = (t, s)"
  by (simp add: getitem_default_def)

text \<open>
  Claim C1. \<open>inspect_who_account\<close> returns SAME for the sentinel id
  \<open>000000000000\<close>, whatever the store and the home account are; otherwise SAME when
  the id is the home account's identifier, whatever the registry holds; otherwise, with
  the registry built, FRIENDLY when the id is in the FRIENDLY set, else THIRDPARTY when it
  is in the THIRDPARTY set, else UNKNOWN.
\<close>

theorem inspect_who_account_precedence:
  "fst (inspect_who_account (Some ''000000000000'') same s) = Inr ''SAME'' \<and>
   (acct \<noteq> Some ''000000000000'' \<and> acct = Some (account_identifier home) \<longrightarrow>
      fst (inspect_who_account acct (Some home) s) = Inr ''SAME'') \<and>
   (acct \<noteq> Some ''000000000000'' \<and> acct \<noteq> Some (account_identifier home) \<and>
    map_of s ''ACCOUNTS'' = Some registry \<and> map_of registry ''FRIENDLY'' = Some friendly \<and>
    map_of registry ''THIRDPARTY'' = Some thirdparty \<longrightarrow>
      fst (inspect_who_account acct (Some home) s) =
        Inr (if in_accounts acct friendly then ''FRIENDLY''
             else if in_accounts acct thirdparty then ''THIRDPARTY''
             else ''UNKNOWN''))"
  by (simp add: inspect_who_account_def getitem_default_present)

theorem inspect_who_account_precedence_witness:
  "Some ''012345678910'' \<noteq> Some ''000000000000'' \<and>
   in_accounts (Some ''012345678910'') [''111111111111'', ''012345678910''] \<and>
   fst (inspect_who_account (Some ''012345678910'')
         (Some \<lparr>account_name = ''prod'', account_identifier = ''012345678910'', third_party = False\<rparr>)
         example_store) = Inr ''SAME'' \<and>
   map_of example_store ''ACCOUNTS''
     = Some [(''FRIENDLY'', [''111111111111'', ''012345678910'']), (''THIRDPARTY'', [''333333333333''])] \<and>
   fst (inspect_who_account (Some ''333333333333'')
         (Some \<lparr>account_name = ''prod'', account_identifier = ''012345678910'', third_party = False\<rparr>)
         example_store) = Inr ''THIRDPARTY''"
  using inspect_who_account_precedence [of None example_store "Some ''012345678910''"
      "\<lparr>account_name = ''prod'', account_identifier = ''012345678910'', third_party = False\<rparr>"]
    inspect_who_account_precedence [of None example_store "Some ''333333333333''"
      "\<lparr>account_name = ''prod'', account_identifier = ''012345678910'', third_party = False\<rparr>"
      "[(''FRIENDLY'', [''111111111111'', ''012345678910'']), (''THIRDPARTY'', [''333333333333''])]"
      "[''111111111111'', ''012345678910'']" "[''333333333333'']"]
  by (simp add: example_store_def in_accounts_def)

lemma inspect_who_account_built:
  "registry_built s friendly thirdparty \<Longrightarrow>
   inspect_who_account a (Some home) s = (Inr (resolveAccount a home friendly thirdparty), s)"
  by (auto simp: registry_built_def inspect_who_account_def resolveAccount_def
        getitem_default_def split: option.splits)

lemma resolve_accounts_built:
  "registry_built s friendly thirdparty \<Longrightarrow>
   resolve_accounts accts (Some home) vals s =
     (Inr (vals \<union> (\<lambda>a. resolveAccount (Some a) home friendly thirdparty) ` set accts), s)"
  by (induction accts arbitrary: vals) (simp_all add: inspect_who_account_built)

lemma resolveAccount_tier: "resolveAccount a home friendly thirdparty \<in> tier_names"
  by (simp add: resolveAccount_def tier_names_def)

lemma unknown_tier: "''UNKNOWN'' \<in> tier_names"
  by (simp add: tier_names_def)

lemma registry_built_getitem_default:
  "registry_built s friendly thirdparty \<Longrightarrow>
   registry_built (snd (getitem_default s k)) friendly thirdparty"
  by (auto simp: registry_built_def getitem_default_def split: option.splits)

lemma inspect_who_generic_built:
  assumes "registry_built s friendly thirdparty"
  shows "\<exists>V. fst (inspect_who_generic key i (Some home) s) = Inr V \<and> V \<subseteq> tier_names"
proof -
  let ?s2 = "snd (getitem_default (snd (getitem_default s key)) key)"
  have "registry_built ?s2 friendly thirdparty"
    using assms by (intro registry_built_getitem_default)
  then have r: "resolve_accounts accts (Some home) {} ?s2 =
      (Inr ((\<lambda>a. resolveAccount (Some a) home friendly thirdparty) ` set accts), ?s2)" for accts
    by (simp add: resolve_accounts_built)
  have k: "map_of (fst (getitem_default (snd (getitem_default s key)) key)) x
         = map_of (fst (getitem_default s key)) x" for x
    by (simp add: fst_getitem_default table_of_getitem_default)
  show ?thesis
    using k by (auto simp: inspect_who_generic_def case_prod_unfold r resolveAccount_tier
          unknown_tier split: option.splits)
qed

section \<open>CIDR resolution\<close>

lemma cidr_loop_built:
  assumes built: "registry_built s friendly thirdparty"
    and q: "IPNetwork L cidr = Some q"
    and t: "map_of s ''cidr'' = Some t"
  shows "\<forall>k \<in> set keys. IPNetwork L k \<noteq> None \<and> map_of t k \<noteq> None \<Longrightarrow>
    cidr_loop L cidr (Some home) keys vals s =
      (Inr (vals \<union> (\<lambda>a. resolveAccount (Some a) home friendly thirdparty) `
              (\<Union>k \<in> set keys.
                 if contains_query L q k
                 then (case map_of t k of None \<Rightarrow> {} | Some accts \<Rightarrow> set accts) else {})), s)"
proof (induction keys arbitrary: vals)
  case Nil
  show ?case by simp
next
  case (Cons k rest)
  from Cons.prems obtain n accts where n: "IPNetwork L k = Some n" and a: "map_of t k = Some accts"
    by auto
  from Cons.prems have rest: "\<forall>k \<in> set rest. IPNetwork L k \<noteq> None \<and> map_of t k \<noteq> None"
    by simp
  show ?case
  proof (cases "net_in L q n")
    case True
    then show ?thesis
      using q n a t Cons.IH [OF rest]
      by (auto simp: getitem_default_def resolve_accounts_built [OF built] contains_query_def)
  next
    case False
    then show ?thesis
      using q n a t Cons.IH [OF rest]
      by (auto simp: contains_query_def)
  qed
qed

text \<open>
  Claim C2. With the registry built, a home account, a queried string that is a network
  and stored keys that are networks: \<open>inspect_who_cidr\<close> returns the union, over every
  entry of the \<open>cidr\<close> table whose network contains the queried one, of the tiers
  \<open>inspect_who_account\<close> gives the entry's owning accounts, and \<open>{UNKNOWN}\<close> when that
  union is empty. So it is the union as soon as a containing entry has an owner (every
  set the builder stores has one), and \<open>{UNKNOWN}\<close> when no stored network contains the
  queried one.
\<close>

theorem inspect_who_cidr_union:
  assumes built: "registry_built s friendly thirdparty"
    and q: "IPNetwork L cidr = Some q"
    and stored: "\<forall>k \<in> set (map fst (table_of s ''cidr'')). IPNetwork L k \<noteq> None"
  shows "fst (inspect_who_cidr L cidr (Some home) s) =
           Inr (let tiers = (\<lambda>a. resolveAccount (Some a) home friendly thirdparty) `
                              cidrLookup L (table_of s ''cidr'') q
                in if tiers = {} then {''UNKNOWN''} else tiers) \<and>
         ((\<exists>k accts. map_of (table_of s ''cidr'') k = Some accts \<and> accts \<noteq> [] \<and>
                     contains_query L q k) \<longrightarrow>
            fst (inspect_who_cidr L cidr (Some home) s) =
              Inr ((\<lambda>a. resolveAccount (Some a) home friendly thirdparty) `
                     cidrLookup L (table_of s ''cidr'') q)) \<and>
         ((\<forall>k \<in> set (map fst (table_of s ''cidr'')). \<not> contains_query L q k) \<longrightarrow>
            fst (inspect_who_cidr L cidr (Some home) s) = Inr {''UNKNOWN''})"
proof -
  let ?t = "table_of s ''cidr''"
  let ?tiers = "(\<lambda>a. resolveAccount (Some a) home friendly thirdparty) ` cidrLookup L ?t q"
  have main: "fst (inspect_who_cidr L cidr (Some home) s) =
                Inr (if ?tiers = {} then {''UNKNOWN''} else ?tiers)"
  proof (cases "map_of s ''cidr''")
    case None
    then show ?thesis
      by (simp add: inspect_who_cidr_def getitem_default_def table_of_def cidrLookup_def)
  next
    case (Some t)
    then have tab: "?t = t" by (simp add: table_of_def)
    have keys: "\<forall>k \<in> set (map fst t). IPNetwork L k \<noteq> None \<and> map_of t k \<noteq> None"
      using stored tab by (auto simp: map_of_eq_None_iff)
    show ?thesis
      using Some cidr_loop_built [OF built q Some keys, of home "{}"]
      by (simp add: inspect_who_cidr_def getitem_default_def tab cidrLookup_def)
  qed
  have some: "?tiers \<noteq> {}"
    if "\<exists>k accts. map_of ?t k = Some accts \<and> accts \<noteq> [] \<and> contains_query L q k"
  proof -
    from that obtain k accts where k: "map_of ?t k = Some accts" "accts \<noteq> []"
        "contains_query L q k" by blast
    from k(1) have "k \<in> set (map fst ?t)"
      by (auto dest: map_of_SomeD intro: rev_image_eqI)
    moreover from k(2) obtain a where "a \<in> set accts" by (cases accts) auto
    ultimately have "a \<in> cidrLookup L ?t q"
      unfolding cidrLookup_def using k by (intro UN_I [of k]) simp_all
    then show ?thesis by auto
  qed
  have none: "?tiers = {}" if "\<forall>k \<in> set (map fst ?t). \<not> contains_query L q k"
    using that by (auto simp: cidrLookup_def)
  show ?thesis
    using main some none by (simp add: Let_def)
qed

theorem inspect_who_cidr_union_witness:
  "registry_built example_store [''111111111111'', ''012345678910''] [''333333333333''] \<and>
   IPNetwork example_lib ''10.1.0.0/16'' = Some (167837696, 167903231) \<and>
   contains_query example_lib (167837696, 167903231) ''10.0.0.0/8'' \<and>
   cidrLookup example_lib (table_of example_store ''cidr'') (167837696, 167903231) = {''012345678910''} \<and>
   fst (inspect_who_cidr example_lib ''10.1.0.0/16'' (Some example_home) example_store) = Inr {''SAME''}"
proof -
  have built: "registry_built example_store [''111111111111'', ''012345678910''] [''333333333333'']"
    by (simp add: registry_built_def example_store_def)
  have q: "IPNetwork example_lib ''10.1.0.0/16'' = Some (167837696, 167903231)"
    by (simp add: example_lib_def example_IPNetwork_def)
  have stored: "\<forall>k \<in> set (map fst (table_of example_store ''cidr'')). IPNetwork example_lib k \<noteq> None"
    by (simp add: table_of_def example_store_def example_lib_def example_IPNetwork_def)
  have c: "contains_query example_lib (167837696, 167903231) ''10.0.0.0/8''"
    by (simp add: contains_query_def example_lib_def example_IPNetwork_def)
  have l: "cidrLookup example_lib (table_of example_store ''cidr'') (167837696, 167903231)
             = {''012345678910''}"
    by (simp add: cidrLookup_def contains_query_def table_of_def example_store_def
          example_lib_def example_IPNetwork_def)
  show ?thesis
    using built q c l inspect_who_cidr_union [OF built q stored, of example_home]
    by (simp add: resolveAccount_def example_home_def)
qed

section \<open>Unparsable ARNs\<close>

lemma for_each_continues:
  "fst (body x st) = Inr () \<Longrightarrow> for_each body (x # xs) st = for_each body xs (snd (body x st))"
  by (cases "body x st") simp

text \<open>
  Claim C7. Resolving an \<open>arn\<close> or \<open>principal\<close> reference whose value is not \<open>*\<close>
  and that the ARN parser flags as an error appends exactly one finding, of severity 3,
  tag "Auditor could not parse ARN" and the value as notes, whatever happens next. With a
  home account and the registry built, resolution then returns a set of tier names
  (\<open>{UNKNOWN}\<close> when the failed parse left technology and account number empty), and a
  loop over references goes on with the next reference.
\<close>

theorem unparsable_arn_recorded:
  assumes cat: "category w \<in> {''arn'', ''principal''}"
    and val: "who_value w \<noteq> ''*''"
    and err: "error (ARN L (who_value w))"
  shows "audit_issues (snd (inspect_who L db w it st)) =
           audit_issues st @ [Finding 3 ''Auditor could not parse ARN'' (Some (who_value w))] \<and>
         (find (\<lambda>a. account_name a = account it) (accounts db) = Some home \<and>
          registry_built (OBJECT_STORE st) friendly thirdparty \<longrightarrow>
            (\<exists>V. fst (inspect_who L db w it st) = Inr (RSet V) \<and> V \<subseteq> tier_names) \<and>
            (tech (ARN L (who_value w)) = None \<and> account_number (ARN L (who_value w)) = None \<longrightarrow>
               fst (inspect_who L db w it st) = Inr (RSet {''UNKNOWN''})) \<and>
            for_each (tier_who L db it tier rec) (w # ws) st =
              for_each (tier_who L db it tier rec) ws (snd (tier_who L db it tier rec w st)))"
proof (intro conjI impI)
  show "audit_issues (snd (inspect_who L db w it st)) =
           audit_issues st @ [Finding 3 ''Auditor could not parse ARN'' (Some (who_value w))]"
    using cat val err by (simp add: audit_issues_inspect_who parse_issues_def)
next
  assume h: "find (\<lambda>a. account_name a = account it) (accounts db) = Some home \<and>
          registry_built (OBJECT_STORE st) friendly thirdparty"
  then have same: "find (\<lambda>a. account_name a = account it) (accounts db) = Some home"
    and built: "registry_built (OBJECT_STORE st) friendly thirdparty" by simp_all
  let ?a = "ARN L (who_value w)"
  have arn: "fst (inspect_who L db w it st) =
      (if tech ?a = Some ''s3''
       then (case fst (inspect_who_generic ''s3'' (name ?a) (Some home) (OBJECT_STORE st)) of
               Inl e \<Rightarrow> Inl e | Inr V \<Rightarrow> Inr (RSet V))
       else Inr (RSet {resolveAccount (account_number ?a) home friendly thirdparty}))"
    using cat val same
    by (auto simp: inspect_who_def inspect_who_arn_def Let_def fst_as_set case_prod_unfold
          inspect_who_s3_def inspect_who_account_built [OF built] split: sum.splits)
  show V: "\<exists>V. fst (inspect_who L db w it st) = Inr (RSet V) \<and> V \<subseteq> tier_names"
    using inspect_who_generic_built [OF built, of "''s3''" "name ?a" home]
    by (auto simp: arn resolveAccount_tier)
  show "fst (inspect_who L db w it st) = Inr (RSet {''UNKNOWN''})"
    if "tech ?a = None \<and> account_number ?a = None"
    using that by (simp add: arn resolveAccount_def in_accounts_def)
  from V have "fst (tier_who L db it tier rec w st) = Inr ()"
    by (auto simp: tier_who_def case_prod_unfold split: sum.splits)
  then show "for_each (tier_who L db it tier rec) (w # ws) st =
              for_each (tier_who L db it tier rec) ws (snd (tier_who L db it tier rec w st))"
    by (rule for_each_continues)
qed

theorem unparsable_arn_recorded_witness:
  "category \<lparr>category = ''principal'', who_value = ''arn:aws:::::garbage''\<rparr> \<in> {''arn'', ''principal''} \<and>
   error (ARN example_lib ''arn:aws:::::garbage'') \<and>
   registry_built (OBJECT_STORE example_state) [''111111111111'', ''012345678910''] [''333333333333''] \<and>
   audit_issues (snd (inspect_who example_lib example_db
       \<lparr>category = ''principal'', who_value = ''arn:aws:::::garbage''\<rparr> example_item example_state))
     = [Finding 3 ''Auditor could not parse ARN'' (Some ''arn:aws:::::garbage'')] \<and>
   fst (inspect_who example_lib example_db
       \<lparr>category = ''principal'', who_value = ''arn:aws:::::garbage''\<rparr> example_item example_state)
     = Inr (RSet {''UNKNOWN''})"
proof -
  let ?w = "\<lparr>category = ''principal'', who_value = ''arn:aws:::::garbage''\<rparr>"
  have cat: "category ?w \<in> {''arn'', ''principal''}" by simp
  have val: "who_value ?w \<noteq> ''*''" by simp
  have err: "error (ARN example_lib (who_value ?w))"
    by (simp add: example_lib_def example_ARN_def)
  have same: "find (\<lambda>a. account_name a = account example_item) (accounts example_db) = Some example_home"
    by (simp add: example_item_def example_db_def example_home_def)
  have built: "registry_built (OBJECT_STORE example_state)
                 [''111111111111'', ''012345678910''] [''333333333333'']"
    by (simp add: registry_built_def example_state_def example_store_def)
  have fields: "tech (ARN example_lib (who_value ?w)) = None \<and>
                account_number (ARN example_lib (who_value ?w)) = None"
    by (simp add: example_lib_def example_ARN_def)
  show ?thesis
    using err built same fields
      unparsable_arn_recorded [OF cat val err, of example_db example_item example_state
        example_home "[''111111111111'', ''012345678910'']" "[''333333333333'']"]
    by (simp add: example_state_def)
qed

section \<open>Unrecognized categories\<close>

lemma not_sublist_tier:
  "\<not> sublist ''SAME'' ''ERROR''" "\<not> sublist ''FRIENDLY'' ''ERROR''"
  "\<not> sublist ''THIRDPARTY'' ''ERROR''" "\<not> sublist ''UNKNOWN'' ''ERROR''"
  by code_simp+

text \<open>
  Claim C4, as amended. For a reference whose category is none of \<open>arn\<close>,
  \<open>principal\<close>, \<open>account\<close>, \<open>userid\<close>, \<open>cidr\<close>, \<open>vpc\<close>, \<open>vpce\<close>,
  \<open>inspect_who\<close> raises nothing, changes nothing and returns the ERROR marker, in which
  no tier name (SAME, FRIENDLY, THIRDPARTY, UNKNOWN) is found. The friendly, third-party
  and unknown checks therefore record nothing for the reference, and the root check
  leaves it at its category gate: it is never taken for UNKNOWN, and it is passed over
  without any finding.
\<close>

theorem unrecognized_category_error:
  assumes "category w \<notin> {''arn'', ''principal'', ''account'', ''userid'', ''cidr'', ''vpc'', ''vpce''}"
  shows "\<exists>r. inspect_who L db w it st = (Inr r, st) \<and>
           py_in ''ERROR'' r \<and> \<not> py_in ''SAME'' r \<and> \<not> py_in ''FRIENDLY'' r \<and>
           \<not> py_in ''THIRDPARTY'' r \<and> \<not> py_in ''UNKNOWN'' r \<and>
           tier_who L db it ''FRIENDLY'' record_friendly_cross_account_access_issue w st = (Inr (), st) \<and>
           tier_who L db it ''THIRDPARTY'' record_thirdparty_cross_account_access_issue w st = (Inr (), st) \<and>
           unknown_who L db it w st = (Inr (), st) \<and>
           root_who L db it stmt w st = (Inr (), st)"
proof -
  have r: "inspect_who L db w it st = (Inr (RStr ''ERROR''), st)"
    using assms by (simp add: inspect_who_def)
  show ?thesis
    using assms
    by (simp add: r py_in_def not_sublist_tier tier_who_def unknown_who_def root_who_def)
qed

text \<open>
  The claim as it was stated fails: what \<open>inspect_who\<close> returns is the bare string
  \<open>'ERROR'\<close>, not the set \<open>{ERROR}\<close>, and the three checks that read it pass the
  reference over in silence.
\<close>

theorem unrecognized_category_error_counterexample:
  "fst (inspect_who example_lib example_db \<lparr>category = ''ip'', who_value = ''203.0.113.7''\<rparr>
          example_item example_state) = Inr (RStr ''ERROR'') \<and>
   Inr (RStr ''ERROR'') \<noteq> (Inr (RSet {''ERROR''}) :: error + resolution) \<and>
   check_friendly_cross_account example_lib example_db [''Policy'']
       (example_policy_item ''ip'' ''203.0.113.7'') example_state = (Inr (), example_state) \<and>
   check_thirdparty_cross_account example_lib example_db [''Policy'']
       (example_policy_item ''ip'' ''203.0.113.7'') example_state = (Inr (), example_state) \<and>
   check_unknown_cross_account example_lib example_db [''Policy'']
       (example_policy_item ''ip'' ''203.0.113.7'') example_state = (Inr (), example_state)"
proof -
  have 1: "fst (inspect_who example_lib example_db \<lparr>category = ''ip'', who_value = ''203.0.113.7''\<rparr>
          example_item example_state) = Inr (RStr ''ERROR'')"
    by (simp add: inspect_who_def)
  have 2: "check_friendly_cross_account example_lib example_db [''Policy'']
       (example_policy_item ''ip'' ''203.0.113.7'') example_state = (Inr (), example_state)"
    unfolding check_friendly_cross_account_def load_policies_example
    by (simp add: example_policy_def tier_who_def inspect_who_def py_in_def not_sublist_tier)
  have 3: "check_thirdparty_cross_account example_lib example_db [''Policy'']
       (example_policy_item ''ip'' ''203.0.113.7'') example_state = (Inr (), example_state)"
    unfolding check_thirdparty_cross_account_def load_policies_example
    by (simp add: example_policy_def tier_who_def inspect_who_def py_in_def not_sublist_tier)
  have 4: "check_unknown_cross_account example_lib example_db [''Policy'']
       (example_policy_item ''ip'' ''203.0.113.7'') example_state = (Inr (), example_state)"
    unfolding check_unknown_cross_account_def load_policies_example
    by (simp add: example_policy_def unknown_who_def tier_who_def inspect_who_def py_in_def
          not_sublist_tier)
  show ?thesis using 1 2 3 4 by simp
qed

theorem unrecognized_category_error_witness:
  "category \<lparr>category = ''ip'', who_value = ''203.0.113.7''\<rparr>
     \<notin> {''arn'', ''principal'', ''account'', ''userid'', ''cidr'', ''vpc'', ''vpce''} \<and>
   (\<exists>r. inspect_who example_lib example_db \<lparr>category = ''ip'', who_value = ''203.0.113.7''\<rparr>
           example_item example_state = (Inr r, example_state) \<and>
        py_in ''ERROR'' r \<and> \<not> py_in ''UNKNOWN'' r) \<and>
   unknown_who example_lib example_db example_item
     \<lparr>category = ''ip'', who_value = ''203.0.113.7''\<rparr> example_state = (Inr (), example_state)"
proof -
  have c: "category \<lparr>category = ''ip'', who_value = ''203.0.113.7''\<rparr>
     \<notin> {''arn'', ''principal'', ''account'', ''userid'', ''cidr'', ''vpc'', ''vpce''}"
    by simp
  from unrecognized_category_error [OF c, of example_lib example_db example_item example_state]
  show ?thesis using c by blast
qed

section \<open>The unknown cross-account check\<close>

lemma for_each_emits:
  assumes body: "\<And>x st. x \<in> set xs \<Longrightarrow> I st \<Longrightarrow>
                  \<exists>st'. body x st = (Inr (), st') \<and> I st' \<and> audit_issues st' = audit_issues st @ out x"
  shows "I st \<Longrightarrow>
         \<exists>st'. for_each body xs st = (Inr (), st') \<and> I st' \<and>
               audit_issues st' = audit_issues st @ concat (map out xs)"
  using body
proof (induction xs arbitrary: st)
  case Nil
  then show ?case by simp
next
  case (Cons x xs)
  from Cons.prems(2) [of x st] Cons.prems(1)
  obtain st1 where 1: "body x st = (Inr (), st1)" "I st1"
      "audit_issues st1 = audit_issues st @ out x"
    by auto
  have "\<exists>st'. for_each body xs st1 = (Inr (), st') \<and> I st' \<and>
               audit_issues st' = audit_issues st1 @ concat (map out xs)"
  proof (rule Cons.IH [OF 1(2)])
    fix y st2
    assume "y \<in> set xs" "I st2"
    then show "\<exists>st'. body y st2 = (Inr (), st') \<and> I st' \<and> audit_issues st' = audit_issues st2 @ out y"
      using Cons.prems(2) [of y st2] by simp
  qed
  then obtain st' where 2: "for_each body xs st1 = (Inr (), st')" "I st'"
      "audit_issues st' = audit_issues st1 @ concat (map out xs)"
    by auto
  show ?case
    using 1 2 by simp
qed

lemma tier_who_emits:
  assumes view: "table_of (OBJECT_STORE st) = table_of (OBJECT_STORE st0)"
    and ok: "resolves L db it st0 w"
    and rec: "\<And>s. rec w s = s\<lparr>audit_issues := audit_issues s @ [f]\<rparr>"
  shows "\<exists>st'. tier_who L db it tier rec w st = (Inr (), st') \<and>
           table_of (OBJECT_STORE st') = table_of (OBJECT_STORE st0) \<and>
           audit_issues st' = audit_issues st @ parse_issues L w @
             (if py_in tier (resolved L db it st0 w) then [f] else [])"
proof -
  have eq: "fst (inspect_who L db w it st) = fst (inspect_who L db w it st0)"
    using view by (rule fst_inspect_who_view)
  from ok obtain r where r0: "fst (inspect_who L db w it st0) = Inr r"
    by (auto simp: resolves_def split: sum.splits)
  obtain st1 where r: "inspect_who L db w it st = (Inr r, st1)"
    using eq r0 by (cases "inspect_who L db w it st") simp
  have t1: "table_of (OBJECT_STORE st1) = table_of (OBJECT_STORE st0)"
    using table_of_inspect_who [of L db w it st] r view by simp
  have a1: "audit_issues st1 = audit_issues st @ parse_issues L w"
    using audit_issues_inspect_who [of L db w it st] r by simp
  show ?thesis
    using r r0 t1 a1 by (simp add: tier_who_def resolved_def rec)
qed

lemma unknown_who_emits:
  assumes view: "table_of (OBJECT_STORE st) = table_of (OBJECT_STORE st0)"
    and ok: "unknown_gate L w \<longrightarrow> resolves L db it st0 w"
  shows "\<exists>st'. unknown_who L db it w st = (Inr (), st') \<and>
           table_of (OBJECT_STORE st') = table_of (OBJECT_STORE st0) \<and>
           audit_issues st' = audit_issues st @
             (if unknown_gate L w
              then parse_issues L w @
                   (if py_in ''UNKNOWN'' (resolved L db it st0 w) then [unknown_finding w] else [])
              else [])"
proof (cases "unknown_gate L w")
  case False
  then show ?thesis
    using view by (auto simp: unknown_who_def unknown_gate_def)
next
  case True
  with ok have "resolves L db it st0 w" by simp
  from tier_who_emits [OF view this, of record_unknown_cross_account_access_issue
      "unknown_finding w" "''UNKNOWN''"]
  show ?thesis
    using True
    by (auto simp: unknown_who_def unknown_gate_def record_unknown_cross_account_access_issue_def
          add_issue_def unknown_finding_def)
qed

lemma concat_map_if:
  "concat (map (\<lambda>x. if P x then [f x] else []) xs) = map f (filter P xs)"
  by (induction xs) simp_all

lemma filter_concat_map:
  "filter P (concat (map g xs)) = concat (map (\<lambda>x. filter P (g x)) xs)"
  by (induction xs) simp_all

lemma filter_parse_issues_unknown [simp]: "filter is_unknown_finding (parse_issues L w) = []"
  by (simp add: parse_issues_def is_unknown_finding_def)

lemma filter_parse_issues_root [simp]: "filter is_root_finding (parse_issues L w) = []"
  by (simp add: parse_issues_def is_root_finding_def)

lemma check_unknown_cross_account_sink:
  assumes ok: "\<forall>pol \<in> set (load_policies L keys it). \<not> is_internet_accessible pol \<longrightarrow>
                 (\<forall>w \<in> set (whos_allowed pol). unknown_gate L w \<longrightarrow> resolves L db it st w)"
  shows "\<exists>st'. check_unknown_cross_account L db keys it st = (Inr (), st') \<and>
           table_of (OBJECT_STORE st') = table_of (OBJECT_STORE st) \<and>
           audit_issues st' = audit_issues st @
             concat (map (\<lambda>pol. if is_internet_accessible pol then []
                 else concat (map (\<lambda>w. if unknown_gate L w
                        then parse_issues L w @
                             (if py_in ''UNKNOWN'' (resolved L db it st w) then [unknown_finding w] else [])
                        else []) (whos_allowed pol)))
               (load_policies L keys it))"
  unfolding check_unknown_cross_account_def
proof (rule for_each_emits [where I = "\<lambda>s. table_of (OBJECT_STORE s) = table_of (OBJECT_STORE st)"])
  show "table_of (OBJECT_STORE st) = table_of (OBJECT_STORE st)" by simp
next
  fix pol and s :: state
  assume pol: "pol \<in> set (load_policies L keys it)"
    and view: "table_of (OBJECT_STORE s) = table_of (OBJECT_STORE st)"
  show "\<exists>st'. (if is_internet_accessible pol then (Inr (), s)
               else for_each (unknown_who L db it) (whos_allowed pol) s) = (Inr (), st') \<and>
          table_of (OBJECT_STORE st') = table_of (OBJECT_STORE st) \<and>
          audit_issues st' = audit_issues s @
            (if is_internet_accessible pol then []
             else concat (map (\<lambda>w. if unknown_gate L w
                        then parse_issues L w @
                             (if py_in ''UNKNOWN'' (resolved L db it st w) then [unknown_finding w] else [])
                        else []) (whos_allowed pol)))"
  proof (cases "is_internet_accessible pol")
    case True
    with view show ?thesis by simp
  next
    case False
    have "\<exists>st'. for_each (unknown_who L db it) (whos_allowed pol) s = (Inr (), st') \<and>
            table_of (OBJECT_STORE st') = table_of (OBJECT_STORE st) \<and>
            audit_issues st' = audit_issues s @
              concat (map (\<lambda>w. if unknown_gate L w
                        then parse_issues L w @
                             (if py_in ''UNKNOWN'' (resolved L db it st w) then [unknown_finding w] else [])
                        else []) (whos_allowed pol))"
    proof (rule for_each_emits [where I = "\<lambda>s. table_of (OBJECT_STORE s) = table_of (OBJECT_STORE st)"])
      show "table_of (OBJECT_STORE s) = table_of (OBJECT_STORE st)" by (rule view)
    next
      fix w and s' :: state
      assume w: "w \<in> set (whos_allowed pol)"
        and view': "table_of (OBJECT_STORE s') = table_of (OBJECT_STORE st)"
      from ok pol False w have "unknown_gate L w \<longrightarrow> resolves L db it st w" by blast
      with view' show "\<exists>st'. unknown_who L db it w s' = (Inr (), st') \<and>
          table_of (OBJECT_STORE st') = table_of (OBJECT_STORE st) \<and>
          audit_issues st' = audit_issues s' @
            (if unknown_gate L w
             then parse_issues L w @
                  (if py_in ''UNKNOWN'' (resolved L db it st w) then [unknown_finding w] else [])
             else [])"
        by (rule unknown_who_emits)
    qed
    with False show ?thesis by simp
  qed
qed

text \<open>
  Claim C3, as amended. Provided the resolver raises on no reference that reaches it, the
  unknown cross-account check returns, and the severity-10 "Unknown Cross Account Access"
  findings it adds are one per reference, in order, for exactly the references such that:
  the enclosing policy is not internet-accessible, the reference is not the bare wildcard
  principal, the reference is not a \<open>principal\<close> whose ARN has the service field set
  (the service gate is applied to category \<open>principal\<close> only), and UNKNOWN is in the
  reference's resolution. Every other reference adds no such finding.
\<close>

theorem check_unknown_cross_account_findings:
  assumes ok: "\<forall>pol \<in> set (load_policies L keys it). \<not> is_internet_accessible pol \<longrightarrow>
                 (\<forall>w \<in> set (whos_allowed pol). unknown_gate L w \<longrightarrow> resolves L db it st w)"
  shows "\<exists>st'. check_unknown_cross_account L db keys it st = (Inr (), st') \<and>
           filter is_unknown_finding (audit_issues st') =
             filter is_unknown_finding (audit_issues st) @
             map unknown_finding (unknown_references L db it st (load_policies L keys it))"
proof -
  from check_unknown_cross_account_sink [OF ok]
  obtain st' where r: "check_unknown_cross_account L db keys it st = (Inr (), st')"
    and a: "audit_issues st' = audit_issues st @
             concat (map (\<lambda>pol. if is_internet_accessible pol then []
                 else concat (map (\<lambda>w. if unknown_gate L w
                        then parse_issues L w @
                             (if py_in ''UNKNOWN'' (resolved L db it st w) then [unknown_finding w] else [])
                        else []) (whos_allowed pol)))
               (load_policies L keys it))"
    by blast
  have u: "is_unknown_finding (unknown_finding w)" for w
    by (simp add: is_unknown_finding_def unknown_finding_def)
  have per_who: "filter is_unknown_finding
           (if unknown_gate L w
            then parse_issues L w @
                 (if py_in ''UNKNOWN'' (resolved L db it st w) then [unknown_finding w] else [])
            else [])
         = (if unknown_gate L w \<and> py_in ''UNKNOWN'' (resolved L db it st w)
            then [unknown_finding w] else [])" for w
    by (simp add: u)
  have per_pol: "filter is_unknown_finding
           (if is_internet_accessible pol then []
            else concat (map (\<lambda>w. if unknown_gate L w
                        then parse_issues L w @
                             (if py_in ''UNKNOWN'' (resolved L db it st w) then [unknown_finding w] else [])
                        else []) (whos_allowed pol)))
         = map unknown_finding
             (if is_internet_accessible pol then []
              else filter (\<lambda>w. unknown_gate L w \<and> py_in ''UNKNOWN'' (resolved L db it st w))
                     (whos_allowed pol))" for pol
    by (simp add: filter_concat_map per_who concat_map_if)
  have "filter is_unknown_finding (audit_issues st') =
          filter is_unknown_finding (audit_issues st) @
          map unknown_finding (unknown_references L db it st (load_policies L keys it))"
    unfolding a unknown_references_def
    by (simp add: filter_concat_map per_pol map_concat comp_def)
  with r show ?thesis by blast
qed

text \<open>
  The claim as it was stated fails on a reference of category \<open>arn\<close> whose ARN has the
  service field set: the check does not skip it, and reports it.
\<close>

theorem check_unknown_cross_account_counterexample:
  "service (ARN example_lib ''lambda.amazonaws.com'') \<and>
   check_unknown_cross_account example_lib example_db [''Policy'']
       (example_policy_item ''arn'' ''lambda.amazonaws.com'') example_state
     = (Inr (), example_state\<lparr>audit_issues :=
          [Finding 10 ''Unknown Cross Account Access''
             (Some ''Access provided to arn:lambda.amazonaws.com.'')]\<rparr>)"
  unfolding check_unknown_cross_account_def load_policies_example
  by (simp add: check_simps resolver_simps example_simps example_policy_item_def)

theorem check_unknown_cross_account_findings_witness:
  "resolves example_lib example_db
       (example_policy_item ''principal'' ''arn:aws:iam::222222222222:role/foo'') example_state
       \<lparr>category = ''principal'', who_value = ''arn:aws:iam::222222222222:role/foo''\<rparr> \<and>
   (\<exists>st'. check_unknown_cross_account example_lib example_db [''Policy'']
            (example_policy_item ''principal'' ''arn:aws:iam::222222222222:role/foo'') example_state
          = (Inr (), st') \<and>
        filter is_unknown_finding (audit_issues st') =
          [Finding 10 ''Unknown Cross Account Access''
             (Some ''Access provided to principal:arn:aws:iam::222222222222:role/foo.'')])"
proof -
  let ?it = "example_policy_item ''principal'' ''arn:aws:iam::222222222222:role/foo''"
  let ?w = "\<lparr>category = ''principal'', who_value = ''arn:aws:iam::222222222222:role/foo''\<rparr>"
  have r: "resolves example_lib example_db ?it example_state ?w"
    by (simp add: statement_simps resolver_simps example_simps example_policy_item_def)
  have h: "\<forall>pol \<in> set (load_policies example_lib [''Policy''] ?it).
             \<not> is_internet_accessible pol \<longrightarrow>
             (\<forall>w \<in> set (whos_allowed pol).
                unknown_gate example_lib w \<longrightarrow> resolves example_lib example_db ?it example_state w)"
    using r by (simp add: load_policies_example example_policy_def)
  have u: "unknown_references example_lib example_db ?it example_state
             (load_policies example_lib [''Policy''] ?it) = [?w]"
    unfolding load_policies_example
    by (simp add: statement_simps resolver_simps example_simps example_policy_item_def py_in_def)
  show ?thesis
    using r check_unknown_cross_account_findings [OF h] unfolding u
    by (simp add: unknown_finding_def access_notes_def example_state_def)
qed

section \<open>The root cross-account check\<close>

lemma inspect_who_arn_category_set:
  assumes "category w \<in> {''arn'', ''principal''}"
    and "fst (inspect_who L db w it st) = Inr r"
  shows "\<exists>V. r = RSet V"
  using assms
  by (auto simp: inspect_who_def Let_def fst_as_set split: sum.splits)

lemma root_who_emits:
  assumes view: "table_of (OBJECT_STORE st) = table_of (OBJECT_STORE st0)"
    and ok: "root_gate L w \<longrightarrow> resolves L db it st0 w"
  shows "\<exists>st'. root_who L db it stmt w st = (Inr (), st') \<and>
           table_of (OBJECT_STORE st') = table_of (OBJECT_STORE st0) \<and>
           audit_issues st' = audit_issues st @
             (if root_gate L w
              then parse_issues L w @
                   (if intersects (resolved L db it st0 w) {''FRIENDLY'', ''THIRDPARTY'', ''UNKNOWN''}
                    then [RootFinding (ARN L (who_value w)) (actions stmt)] else [])
              else [])"
proof (cases "root_gate L w")
  case False
  then show ?thesis
    using view by (auto simp: root_who_def root_gate_def Let_def)
next
  case True
  then have cat: "category w \<in> {''arn'', ''principal''}" by (simp add: root_gate_def)
  from True ok have "resolves L db it st0 w" by simp
  then obtain r where r0: "fst (inspect_who L db w it st0) = Inr r"
    by (auto simp: resolves_def split: sum.splits)
  from inspect_who_arn_category_set [OF cat r0] obtain V where V: "r = RSet V" by blast
  have eq: "fst (inspect_who L db w it st) = fst (inspect_who L db w it st0)"
    using view by (rule fst_inspect_who_view)
  obtain st1 where r: "inspect_who L db w it st = (Inr (RSet V), st1)"
    using eq r0 V by (cases "inspect_who L db w it st") simp
  have t1: "table_of (OBJECT_STORE st1) = table_of (OBJECT_STORE st0)"
    using table_of_inspect_who [of L db w it st] r view by simp
  have a1: "audit_issues st1 = audit_issues st @ parse_issues L w"
    using audit_issues_inspect_who [of L db w it st] r by simp
  have res: "resolved L db it st0 w = RSet V"
    using r0 V by (simp add: resolved_def)
  have g: "category w = ''arn'' \<or> category w = ''principal''"
      "who_value w \<noteq> ''*''" "root (ARN L (who_value w))"
    using True by (auto simp: root_gate_def)
  show ?thesis
  proof (cases "V \<inter> {''FRIENDLY'', ''THIRDPARTY'', ''UNKNOWN''} = {}")
    case True
    with g r t1 a1 res \<open>root_gate L w\<close> show ?thesis
      by (auto simp: root_who_def Let_def py_intersection_def intersects_def)
  next
    case False
    with g r t1 a1 res \<open>root_gate L w\<close> show ?thesis
      by (auto simp: root_who_def Let_def py_intersection_def intersects_def
            check_cross_account_root_def)
  qed
qed

lemma check_root_cross_account_sink:
  assumes ok: "\<forall>pol \<in> set (load_policies L keys it). \<forall>stmt \<in> set (statements pol).
                 effect stmt = ''Allow'' \<longrightarrow>
                 (\<forall>w \<in> set (statement_whos_allowed stmt). root_gate L w \<longrightarrow> resolves L db it st w)"
  shows "\<exists>st'. check_root_cross_account L db keys it st = (Inr (), st') \<and>
           table_of (OBJECT_STORE st') = table_of (OBJECT_STORE st) \<and>
           audit_issues st' = audit_issues st @
             concat (map (\<lambda>pol. concat (map (\<lambda>stmt.
                 if effect stmt \<noteq> ''Allow'' then []
                 else concat (map (\<lambda>w. if root_gate L w
                        then parse_issues L w @
                             (if intersects (resolved L db it st w) {''FRIENDLY'', ''THIRDPARTY'', ''UNKNOWN''}
                              then [RootFinding (ARN L (who_value w)) (actions stmt)] else [])
                        else []) (statement_whos_allowed stmt)))
                 (statements pol)))
               (load_policies L keys it))"
  unfolding check_root_cross_account_def
proof (rule for_each_emits [where I = "\<lambda>s. table_of (OBJECT_STORE s) = table_of (OBJECT_STORE st)"])
  show "table_of (OBJECT_STORE st) = table_of (OBJECT_STORE st)" by simp
next
  fix pol and s :: state
  assume pol: "pol \<in> set (load_policies L keys it)"
    and view: "table_of (OBJECT_STORE s) = table_of (OBJECT_STORE st)"
  show "\<exists>st'. for_each (\<lambda>stmt st. if effect stmt \<noteq> ''Allow'' then (Inr (), st)
                  else for_each (root_who L db it stmt) (statement_whos_allowed stmt) st)
               (statements pol) s = (Inr (), st') \<and>
          table_of (OBJECT_STORE st') = table_of (OBJECT_STORE st) \<and>
          audit_issues st' = audit_issues s @
            concat (map (\<lambda>stmt.
                 if effect stmt \<noteq> ''Allow'' then []
                 else concat (map (\<lambda>w. if root_gate L w
                        then parse_issues L w @
                             (if intersects (resolved L db it st w) {''FRIENDLY'', ''THIRDPARTY'', ''UNKNOWN''}
                              then [RootFinding (ARN L (who_value w)) (actions stmt)] else [])
                        else []) (statement_whos_allowed stmt)))
                 (statements pol))"
  proof (rule for_each_emits [where I = "\<lambda>s. table_of (OBJECT_STORE s) = table_of (OBJECT_STORE st)"])
    show "table_of (OBJECT_STORE s) = table_of (OBJECT_STORE st)" by (rule view)
  next
    fix stmt and s1 :: state
    assume stmt: "stmt \<in> set (statements pol)"
      and view1: "table_of (OBJECT_STORE s1) = table_of (OBJECT_STORE st)"
    show "\<exists>st'. (if effect stmt \<noteq> ''Allow'' then (Inr (), s1)
                 else for_each (root_who L db it stmt) (statement_whos_allowed stmt) s1) = (Inr (), st') \<and>
            table_of (OBJECT_STORE st') = table_of (OBJECT_STORE st) \<and>
            audit_issues st' = audit_issues s1 @
              (if effect stmt \<noteq> ''Allow'' then []
               else concat (map (\<lambda>w. if root_gate L w
                        then parse_issues L w @
                             (if intersects (resolved L db it st w) {''FRIENDLY'', ''THIRDPARTY'', ''UNKNOWN''}
                              then [RootFinding (ARN L (who_value w)) (actions stmt)] else [])
                        else []) (statement_whos_allowed stmt)))"
    proof (cases "effect stmt = ''Allow''")
      case False
      with view1 show ?thesis by simp
    next
      case True
      have "\<exists>st'. for_each (root_who L db it stmt) (statement_whos_allowed stmt) s1 = (Inr (), st') \<and>
              table_of (OBJECT_STORE st') = table_of (OBJECT_STORE st) \<and>
              audit_issues st' = audit_issues s1 @
                concat (map (\<lambda>w. if root_gate L w
                        then parse_issues L w @
                             (if intersects (resolved L db it st w) {''FRIENDLY'', ''THIRDPARTY'', ''UNKNOWN''}
                              then [RootFinding (ARN L (who_value w)) (actions stmt)] else [])
                        else []) (statement_whos_allowed stmt))"
      proof (rule for_each_emits [where I = "\<lambda>s. table_of (OBJECT_STORE s) = table_of (OBJECT_STORE st)"])
        show "table_of (OBJECT_STORE s1) = table_of (OBJECT_STORE st)" by (rule view1)
      next
        fix w and s2 :: state
        assume w: "w \<in> set (statement_whos_allowed stmt)"
          and view2: "table_of (OBJECT_STORE s2) = table_of (OBJECT_STORE st)"
        from ok pol stmt True w have "root_gate L w \<longrightarrow> resolves L db it st w" by blast
        with view2 show "\<exists>st'. root_who L db it stmt w s2 = (Inr (), st') \<and>
            table_of (OBJECT_STORE st') = table_of (OBJECT_STORE st) \<and>
            audit_issues st' = audit_issues s2 @
              (if root_gate L w
               then parse_issues L w @
                    (if intersects (resolved L db it st w) {''FRIENDLY'', ''THIRDPARTY'', ''UNKNOWN''}
                     then [RootFinding (ARN L (who_value w)) (actions stmt)] else [])
               else [])"
          by (rule root_who_emits)
      qed
      with True show ?thesis by simp
    qed
  qed
qed

text \<open>
  Claim C8. Provided the resolver raises on no reference that reaches it, the root
  cross-account check returns, and the root-access findings it adds are one per reference,
  in order, for exactly the references such that: the enclosing statement's effect is
  Allow, the category is \<open>arn\<close> or \<open>principal\<close>, the value is not \<open>*\<close>, the parsed
  ARN is a root user's, and the resolution meets \<open>{FRIENDLY, THIRDPARTY, UNKNOWN}\<close>. Each
  finding carries that statement's actions.
\<close>

theorem check_root_cross_account_findings:
  assumes ok: "\<forall>pol \<in> set (load_policies L keys it). \<forall>stmt \<in> set (statements pol).
                 effect stmt = ''Allow'' \<longrightarrow>
                 (\<forall>w \<in> set (statement_whos_allowed stmt). root_gate L w \<longrightarrow> resolves L db it st w)"
  shows "\<exists>st'. check_root_cross_account L db keys it st = (Inr (), st') \<and>
           filter is_root_finding (audit_issues st') =
             filter is_root_finding (audit_issues st) @
             root_findings L db it st (load_policies L keys it)"
proof -
  from check_root_cross_account_sink [OF ok]
  obtain st' where r: "check_root_cross_account L db keys it st = (Inr (), st')"
    and a: "audit_issues st' = audit_issues st @
             concat (map (\<lambda>pol. concat (map (\<lambda>stmt.
                 if effect stmt \<noteq> ''Allow'' then []
                 else concat (map (\<lambda>w. if root_gate L w
                        then parse_issues L w @
                             (if intersects (resolved L db it st w) {''FRIENDLY'', ''THIRDPARTY'', ''UNKNOWN''}
                              then [RootFinding (ARN L (who_value w)) (actions stmt)] else [])
                        else []) (statement_whos_allowed stmt)))
                 (statements pol)))
               (load_policies L keys it))"
    by blast
  have per_who: "filter is_root_finding
           (if root_gate L w
            then parse_issues L w @
                 (if intersects (resolved L db it st w) {''FRIENDLY'', ''THIRDPARTY'', ''UNKNOWN''}
                  then [RootFinding (ARN L (who_value w)) acts] else [])
            else [])
         = (if root_gate L w \<and>
               intersects (resolved L db it st w) {''FRIENDLY'', ''THIRDPARTY'', ''UNKNOWN''}
            then [RootFinding (ARN L (who_value w)) acts] else [])" for w acts
    by (simp add: is_root_finding_def)
  have per_stmt: "filter is_root_finding
           (if effect stmt \<noteq> ''Allow'' then []
            else concat (map (\<lambda>w. if root_gate L w
                        then parse_issues L w @
                             (if intersects (resolved L db it st w) {''FRIENDLY'', ''THIRDPARTY'', ''UNKNOWN''}
                              then [RootFinding (ARN L (who_value w)) (actions stmt)] else [])
                        else []) (statement_whos_allowed stmt)))
         = (if effect stmt \<noteq> ''Allow'' then []
            else map (\<lambda>w. RootFinding (ARN L (who_value w)) (actions stmt))
                   (filter (\<lambda>w. root_gate L w \<and>
                              intersects (resolved L db it st w) {''FRIENDLY'', ''THIRDPARTY'', ''UNKNOWN''})
                      (statement_whos_allowed stmt)))" for stmt
    by (simp add: filter_concat_map per_who concat_map_if)
  have "filter is_root_finding (audit_issues st') =
          filter is_root_finding (audit_issues st) @
          root_findings L db it st (load_policies L keys it)"
    unfolding a root_findings_def
    by (simp add: filter_concat_map per_stmt)
  with r show ?thesis by blast
qed

theorem check_root_cross_account_findings_witness:
  "resolves example_lib example_db
       (example_policy_item ''principal'' ''arn:aws:iam::333333333333:root'') example_state
       \<lparr>category = ''principal'', who_value = ''arn:aws:iam::333333333333:root''\<rparr> \<and>
   (\<exists>st'. check_root_cross_account example_lib example_db [''Policy'']
            (example_policy_item ''principal'' ''arn:aws:iam::333333333333:root'') example_state
          = (Inr (), st') \<and>
        filter is_root_finding (audit_issues st') =
          [RootFinding (ARN example_lib ''arn:aws:iam::333333333333:root'') [''sns:Publish'']])"
proof -
  let ?it = "example_policy_item ''principal'' ''arn:aws:iam::333333333333:root''"
  let ?w = "\<lparr>category = ''principal'', who_value = ''arn:aws:iam::333333333333:root''\<rparr>"
  have r: "resolves example_lib example_db ?it example_state ?w"
    by (simp add: statement_simps resolver_simps example_simps example_policy_item_def)
  have h: "\<forall>pol \<in> set (load_policies example_lib [''Policy''] ?it).
             \<forall>stmt \<in> set (statements pol). effect stmt = ''Allow'' \<longrightarrow>
             (\<forall>w \<in> set (statement_whos_allowed stmt).
                root_gate example_lib w \<longrightarrow> resolves example_lib example_db ?it example_state w)"
    using r by (simp add: load_policies_example example_policy_def)
  have u: "root_findings example_lib example_db ?it example_state
             (load_policies example_lib [''Policy''] ?it)
           = [RootFinding (ARN example_lib ''arn:aws:iam::333333333333:root'') [''sns:Publish'']]"
    unfolding load_policies_example
    by (simp add: statement_simps resolver_simps example_simps example_policy_item_def)
  show ?thesis
    using r check_root_cross_account_findings [OF h] unfolding u
    by (simp add: example_state_def)
qed

section \<open>The empty SNS topic policy\<close>

text \<open>
  Claim C10. \<open>check_snstopicpolicy_empty\<close> appends exactly one finding, of severity 1
  and tag "SNS Topic Policy is empty", when the configuration has no \<open>policy\<close> key or
  maps it to the empty mapping, and leaves the findings as they are otherwise.
\<close>

theorem check_snstopicpolicy_empty_iff:
  "check_snstopicpolicy_empty snsitem st =
     (if map_of (config snsitem) ''policy'' = None \<or> map_of (config snsitem) ''policy'' = Some (JDict [])
      then st\<lparr>audit_issues := audit_issues st @ [Finding 1 ''SNS Topic Policy is empty'' None]\<rparr>
      else st)"
  by (auto simp: check_snstopicpolicy_empty_def add_issue_def split: option.splits)

section \<open>The builder's guard\<close>

lemma update_nonempty: "AList.update k v al \<noteq> []"
  by (cases al) auto

lemma store_add_nonempty: "store_add s tname key v \<noteq> []"
  by (simp add: store_add_def case_prod_unfold update_nonempty)

lemma store_reset_nonempty: "store_reset s tname key \<noteq> []"
  by (simp add: store_reset_def case_prod_unfold update_nonempty)

lemma getitem_default_nonempty: "snd (getitem_default s k) \<noteq> []"
  by (auto simp: getitem_default_def split: option.splits)

lemma for_each_nonempty:
  assumes body: "\<And>x s. s \<noteq> [] \<Longrightarrow> snd (body x s) \<noteq> []"
  shows "s \<noteq> [] \<Longrightarrow> snd (for_each body xs s) \<noteq> []"
proof (induction xs arbitrary: s)
  case Nil
  then show ?case by simp
next
  case (Cons x xs)
  obtain r s' where r: "body x s = (r, s')" by (cases "body x s")
  with body [OF Cons.prems, of x] have s': "s' \<noteq> []" by simp
  show ?case
  proof (cases r)
    case (Inl e)
    with r s' show ?thesis by simp
  next
    case (Inr u)
    with r Cons.IH [OF s'] show ?thesis by simp
  qed
qed

lemma for_each_total:
  assumes body: "\<And>x s. fst (body x s) = Inr ()"
  shows "fst (for_each body xs s) = Inr ()"
proof (induction xs arbitrary: s)
  case Nil
  show ?case by simp
next
  case (Cons x xs)
  obtain r s' where r: "body x s = (r, s')" by (cases "body x s")
  with body [of x s] have "r = Inr ()" by simp
  with r Cons.IH [of s'] show ?case by simp
qed

lemma then_do_nonempty:
  assumes "snd r \<noteq> []" and "\<And>s. s \<noteq> [] \<Longrightarrow> snd (f s) \<noteq> []"
  shows "snd (then_do r f) \<noteq> []"
proof (cases r)
  case (Pair o1 s1)
  with assms show ?thesis by (cases o1) (simp_all add: then_do_def)
qed

lemma then_do_after_total:
  assumes "fst r = Inr ()" and "\<And>s. snd (f s) \<noteq> []"
  shows "snd (then_do r f) \<noteq> []"
proof (cases r)
  case (Pair o1 s1)
  with assms show ?thesis by (simp add: then_do_def)
qed

lemma then_do_total:
  assumes "fst r = Inr ()" and "\<And>s. fst (f s) = Inr ()"
  shows "fst (then_do r f) = Inr ()"
proof (cases r)
  case (Pair o1 s1)
  with assms show ?thesis by (simp add: then_do_def)
qed

lemma load_s3_buckets_total: "fst (load_s3_buckets db s) = Inr ()"
  unfolding load_s3_buckets_def by (rule for_each_total) simp

lemma load_userids_total: "fst (load_userids db s) = Inr ()"
  unfolding load_userids_def
  by (rule then_do_total; rule for_each_total) simp_all

lemma load_accounts_nonempty: "snd (load_accounts db s) \<noteq> []"
  unfolding load_accounts_def Let_def
proof (rule then_do_after_total)
  show "fst (for_each (\<lambda>a s. (Inr (), store_add s ''ACCOUNTS'' (Some ''FRIENDLY'') (account_identifier a)))
          (filter (\<lambda>a. third_party a = False) (accounts db))
          (store_reset s ''ACCOUNTS'' ''FRIENDLY'')) = Inr ()"
    by (rule for_each_total) simp
next
  fix s'
  show "snd (for_each (\<lambda>a s. (Inr (), store_add s ''ACCOUNTS'' (Some ''THIRDPARTY'') (account_identifier a)))
          (filter (\<lambda>a. third_party a = True) (accounts db))
          (store_reset s' ''ACCOUNTS'' ''THIRDPARTY'')) \<noteq> []"
    by (rule for_each_nonempty) (simp_all add: store_add_nonempty store_reset_nonempty)
qed

lemma load_vpcs_nonempty: "s \<noteq> [] \<Longrightarrow> snd (load_vpcs db s) \<noteq> []"
  unfolding load_vpcs_def by (rule for_each_nonempty) (simp_all add: store_add_nonempty)

lemma load_vpces_nonempty: "s \<noteq> [] \<Longrightarrow> snd (load_vpces db s) \<noteq> []"
  unfolding load_vpces_def by (rule for_each_nonempty) (simp_all add: store_add_nonempty)

lemma load_nat_address_nonempty: "snd (load_nat_address acct address s) \<noteq> []"
  by (simp add: load_nat_address_def Let_def store_add_nonempty getitem_default_nonempty
        split: option.splits)

lemma load_natgateways_nonempty: "s \<noteq> [] \<Longrightarrow> snd (load_natgateways db s) \<noteq> []"
  unfolding load_natgateways_def
proof (rule for_each_nonempty)
  fix gateway and s' :: object_store
  assume "s' \<noteq> []"
  then show "snd (for_each (load_nat_address (owner_identifier gateway))
               (case nat_gateway_addresses (latest_config gateway) of None \<Rightarrow> [] | Some l \<Rightarrow> l) s') \<noteq> []"
    by (rule for_each_nonempty [rotated]) (rule load_nat_address_nonempty)
qed

lemma load_network_whitelist_nonempty: "s \<noteq> [] \<Longrightarrow> snd (load_network_whitelist db s) \<noteq> []"
  unfolding load_network_whitelist_def
  by (rule for_each_nonempty) (simp_all add: store_add_nonempty)

lemma first_build_nonempty: "snd (prep_for_audit db []) \<noteq> []"
proof -
  have "fst (then_do (load_s3_buckets db []) (load_userids db)) = Inr ()"
    by (rule then_do_total) (rule load_s3_buckets_total, rule load_userids_total)
  then have "snd (then_do (then_do (load_s3_buckets db []) (load_userids db)) (load_accounts db)) \<noteq> []"
    by (rule then_do_after_total) (rule load_accounts_nonempty)
  then have "snd (then_do (then_do (then_do (load_s3_buckets db []) (load_userids db))
               (load_accounts db)) (load_vpcs db)) \<noteq> []"
    by (rule then_do_nonempty) (rule load_vpcs_nonempty)
  then have "snd (then_do (then_do (then_do (then_do (load_s3_buckets db []) (load_userids db))
               (load_accounts db)) (load_vpcs db)) (load_vpces db)) \<noteq> []"
    by (rule then_do_nonempty) (rule load_vpces_nonempty)
  then have "snd (then_do (then_do (then_do (then_do (then_do (load_s3_buckets db [])
               (load_userids db)) (load_accounts db)) (load_vpcs db)) (load_vpces db))
               (load_natgateways db)) \<noteq> []"
    by (rule then_do_nonempty) (rule load_natgateways_nonempty)
  then have "snd (then_do (then_do (then_do (then_do (then_do (then_do (load_s3_buckets db [])
               (load_userids db)) (load_accounts db)) (load_vpcs db)) (load_vpces db))
               (load_natgateways db)) (load_network_whitelist db)) \<noteq> []"
    by (rule then_do_nonempty) (rule load_network_whitelist_nonempty)
  then show ?thesis
    by (simp add: prep_for_audit_def)
qed

text \<open>
  Claim C6. Once some table of the Knowledge Base is non-empty, \<open>prep_for_audit\<close>
  returns without touching the store: no insertion is made and every table is as it was.
  In particular a second call, after a first call on the empty store (whatever that call
  read and whether or not it raised), changes nothing.
\<close>

theorem prep_for_audit_idempotent:
  "((\<exists>tname t. map_of s tname = Some t \<and> t \<noteq> []) \<longrightarrow> prep_for_audit db s = (Inr (), s)) \<and>
   prep_for_audit db' (snd (prep_for_audit db [])) = (Inr (), snd (prep_for_audit db []))"
proof (intro conjI impI)
  assume "\<exists>tname t. map_of s tname = Some t \<and> t \<noteq> []"
  then have "s \<noteq> []" by auto
  then show "prep_for_audit db s = (Inr (), s)" by (simp add: prep_for_audit_def)
next
  show "prep_for_audit db' (snd (prep_for_audit db [])) = (Inr (), snd (prep_for_audit db []))"
    using first_build_nonempty [of db] by (simp add: prep_for_audit_def [of db'])
qed

theorem prep_for_audit_idempotent_witness:
  "map_of example_store ''s3'' = Some [(''bucket-a'', [''111111111111''])] \<and>
   [(''bucket-a'', [''111111111111''])] \<noteq> [] \<and>
   prep_for_audit example_db example_store = (Inr (), example_store) \<and>
   prep_for_audit example_db (snd (prep_for_audit example_db [])) = (Inr (), example_store)"
  using prep_for_audit_idempotent [of example_store example_db example_db]
  by (simp add: prep_for_audit_example) (simp add: example_store_def)

end
